theory Spec2Isabelle
  imports Main "HOL-Library.Sublist" "HOL-Library.Monad_Syntax"
begin

section \<open>JavaScript values\<close>

text \<open>
  The extension receives whatever JSON a registry publishes and casts it to its TypeScript
  interfaces without any runtime check, so the embedding works on untyped JavaScript values.
  \<open>JObj\<close> lists the own properties of an object as \<open>JSON.parse\<close> created it (one entry per
  key). The type parameter \<open>'n\<close> stands for JavaScript numbers; the two operations on numbers
  the program depends on (their string form and their truthiness) are taken from the engine.
\<close>

datatype 'n jsval =
    JUndefined
  | JNull
  | JBool bool
  | JNum 'n
  | JStr string
  | JArr "'n jsval list"
  | JObj "(string \<times> 'n jsval) list"

record 'n engine =
  number_to_string :: "'n \<Rightarrow> string"
  number_truthy :: "'n \<Rightarrow> bool"
  type_error_message :: string
  code_points :: "string \<Rightarrow> string list"

text \<open>
  \<open>type_error_message\<close> is the message text the runtime gives to a \<open>TypeError\<close> it raises
  itself during one run of the program; ECMAScript leaves that text to the implementation.
  \<open>code_points s\<close> is what iterating the string \<open>s\<close> yields: its code points, each as a string.
\<close>

text \<open>A thrown value: an \<open>Error\<close> object with its \<open>message\<close>, or a value that is no \<open>Error\<close>.\<close>

datatype thrown = ErrorObj string | NonError

text \<open>\<open>typeof v\<close>.\<close>

fun typeof :: "'n jsval \<Rightarrow> string" where
  "typeof JUndefined = ''undefined''"
| "typeof JNull = ''object''"
| "typeof (JBool b) = ''boolean''"
| "typeof (JNum n) = ''number''"
| "typeof (JStr s) = ''string''"
| "typeof (JArr xs) = ''object''"
| "typeof (JObj ps) = ''object''"

text \<open>\<open>Array.isArray(v)\<close>.\<close>

fun isArray :: "'n jsval \<Rightarrow> bool" where
  "isArray (JArr xs) = True"
| "isArray v = False"

text \<open>
  \<open>k in v\<close> for an object \<open>v\<close>, and the value of \<open>v.k\<close> for a \<open>v\<close> that is neither \<open>null\<close> nor
  \<open>undefined\<close>. The program reads only the keys \<open>name\<close>, \<open>description\<close>, \<open>files\<close>,
  \<open>dependencies\<close>, \<open>registryDependencies\<close>, \<open>type\<close>, \<open>items\<close> and \<open>path\<close>; none of them is
  defined on \<open>Object.prototype\<close>, \<open>Array.prototype\<close> or on the wrappers of primitives, so only
  own properties of a parsed object can answer. (The view also reads \<open>length\<close>, which arrays
  and strings do have; \<open>has_length\<close> below treats them apart.)
\<close>

fun js_in :: "string \<Rightarrow> 'n jsval \<Rightarrow> bool" where
  "js_in k (JObj ps) = (k \<in> fst ` set ps)"
| "js_in k v = False"

fun jsprop :: "'n jsval \<Rightarrow> string \<Rightarrow> 'n jsval" where
  "jsprop (JObj ps) k = (case map_of ps k of Some v \<Rightarrow> v | None \<Rightarrow> JUndefined)"
| "jsprop v k = JUndefined"

text \<open>\<open>v.k\<close> in general: reading a property of \<open>null\<close> or \<open>undefined\<close> raises a TypeError (\<open>None\<close>).\<close>

definition get_prop :: "'n jsval \<Rightarrow> string \<Rightarrow> 'n jsval option" where
  "get_prop v k = (if v = JNull \<or> v = JUndefined then None else Some (jsprop v k))"

text \<open>
  \<open>v.map(f)\<close>: only an array has a callable \<open>map\<close>; on every other value the call raises a
  TypeError, as does a callback that raises.
\<close>

fun js_map :: "('n jsval \<Rightarrow> 'a option) \<Rightarrow> 'n jsval \<Rightarrow> 'a list option" where
  "js_map f (JArr xs) = those (map f xs)"
| "js_map f v = None"

text \<open>
  \<open>String(v)\<close> and the conversion of a template literal. An array is joined with commas,
  \<open>null\<close> and \<open>undefined\<close> elements giving the empty string. A plain object gives
  \<open>[object Object]\<close> through \<open>Object.prototype.toString\<close>; an object with an own property
  \<open>toString\<close> shadows that method with a value that is not callable (JSON has no functions),
  \<open>valueOf\<close> then returns no primitive either, and the conversion raises a TypeError.
\<close>

fun ToString :: "('n \<Rightarrow> string) \<Rightarrow> 'n jsval \<Rightarrow> string option"
  and join_items :: "('n \<Rightarrow> string) \<Rightarrow> 'n jsval list \<Rightarrow> string option"
where
  "ToString ns JUndefined = Some ''undefined''"
| "ToString ns JNull = Some ''null''"
| "ToString ns (JBool b) = Some (if b then ''true'' else ''false'')"
| "ToString ns (JNum n) = Some (ns n)"
| "ToString ns (JStr s) = Some s"
| "ToString ns (JArr xs) = join_items ns xs"
| "ToString ns (JObj ps) =
     (if ''toString'' \<in> fst ` set ps then None else Some ''[object Object]'')"
| "join_items ns [] = Some ''''"
| "join_items ns (x # xs) =
     (case (if x = JUndefined \<or> x = JNull then Some '''' else ToString ns x) of
        None \<Rightarrow> None
      | Some s \<Rightarrow>
          (if xs = [] then Some s
           else (case join_items ns xs of None \<Rightarrow> None | Some r \<Rightarrow> Some (s @ '','' @ r))))"

text \<open>Truthiness of a value in a condition.\<close>

fun truthy :: "('n \<Rightarrow> bool) \<Rightarrow> 'n jsval \<Rightarrow> bool" where
  "truthy nt JUndefined = False"
| "truthy nt JNull = False"
| "truthy nt (JBool b) = b"
| "truthy nt (JNum n) = nt n"
| "truthy nt (JStr s) = (s \<noteq> [])"
| "truthy nt (JArr xs) = True"
| "truthy nt (JObj ps) = True"

text \<open>The decimal form of a natural number, as a template literal prints it.\<close>

fun show_nat :: "nat \<Rightarrow> string" where
  "show_nat n =
     (if n < 10 then [char_of (48 + n)]
      else show_nat (n div 10) @ [char_of (48 + n mod 10)])"

declare show_nat.simps [simp del]

section \<open>registries.ts\<close>

record registry =
  name :: string
  jsonUrl :: string
  componentJsonBaseUrl :: string
  description :: string
  icon :: "string option"

text \<open>The two icons are emoji, written here as their UTF-8 bytes.\<close>

definition availableRegistries :: "registry list" where
  "availableRegistries =
     [\<lparr>name = ''Shadcn UI'',
       jsonUrl = ''https://ui.shadcn.com/registry/index.json'',
       componentJsonBaseUrl = ''https://ui.shadcn.com/registry/components/r/'',
       description = ''Official shadcn components'',
       icon = Some [CHR 0xF0, CHR 0x9F, CHR 0x8E, CHR 0xA8]\<rparr>,
      \<lparr>name = ''Kitze UI'',
       jsonUrl = ''https://ui.kitze.io/registry.json'',
       componentJsonBaseUrl = ''https://ui.kitze.io/r/'',
       description = ''Kitze UI components'',
       icon = Some [CHR 0xF0, CHR 0x9F, CHR 0xA7, CHR 0xA9]\<rparr>]"

section \<open>Components and their normalisation\<close>

text \<open>
  The \<open>Component\<close> interface. Its fields are declared as strings and string arrays, but the
  two vendor branches copy properties of the response unchecked, so at run time a field
  holds whatever value the response had there.
\<close>

record 'n component =
  name :: "'n jsval"
  description :: "'n jsval"
  dependencies :: "'n jsval"
  registryDependencies :: "'n jsval"
  files :: "'n jsval"
  type :: "'n jsval"

text \<open>The callback of the \<open>Shadcn UI\<close> branch.\<close>

definition shadcn_entry :: "'n jsval \<Rightarrow> 'n component option" where
  "shadcn_entry cmp = do {
     n \<leftarrow> get_prop cmp ''name'';
     d \<leftarrow> get_prop cmp ''dependencies'';
     r \<leftarrow> get_prop cmp ''registryDependencies'';
     f \<leftarrow> get_prop cmp ''files'';
     t \<leftarrow> get_prop cmp ''type'';
     Some \<lparr>component.name = n, description = JUndefined, dependencies = d,
           registryDependencies = r, files = f, type = t\<rparr>
   }"

text \<open>The callback of the \<open>Kitze UI\<close> branch; \<open>files\<close> is \<open>comp.files.map((file) => file.path)\<close>.\<close>

definition kitze_entry :: "'n jsval \<Rightarrow> 'n component option" where
  "kitze_entry cmp = do {
     n \<leftarrow> get_prop cmp ''name'';
     ds \<leftarrow> get_prop cmp ''description'';
     d \<leftarrow> get_prop cmp ''dependencies'';
     r \<leftarrow> get_prop cmp ''registryDependencies'';
     fs \<leftarrow> get_prop cmp ''files'';
     paths \<leftarrow> js_map (\<lambda>file. get_prop file ''path'') fs;
     t \<leftarrow> get_prop cmp ''type'';
     Some \<lparr>component.name = n, description = ds, dependencies = d,
           registryDependencies = r, files = JArr paths, type = t\<rparr>
   }"

text \<open>
  The guard \<open>typeof comp === "object" && comp !== null && k in comp\<close> that every field of
  the fallback branch starts with.
\<close>

definition has_field :: "'n jsval \<Rightarrow> string \<Rightarrow> bool" where
  "has_field cmp k \<longleftrightarrow> typeof cmp = ''object'' \<and> cmp \<noteq> JNull \<and> js_in k cmp"

text \<open>\<open>v.map(String)\<close>, the result again a JavaScript array.\<close>

definition map_String :: "('n \<Rightarrow> string) \<Rightarrow> 'n jsval \<Rightarrow> 'n jsval option" where
  "map_String ns v = map_option (\<lambda>ss. JArr (map JStr ss)) (js_map (ToString ns) v)"

text \<open>The callback of the fallback branch, for a registry of any other name.\<close>

definition fallback_entry :: "('n \<Rightarrow> string) \<Rightarrow> 'n jsval \<Rightarrow> 'n component option" where
  "fallback_entry ns cmp = do {
     let n = (if has_field cmp ''name'' \<and> typeof (jsprop cmp ''name'') = ''string''
              then jsprop cmp ''name'' else JStr ''Unknown Component'');
     let ds = (if has_field cmp ''description'' \<and> typeof (jsprop cmp ''description'') = ''string''
               then jsprop cmp ''description'' else JUndefined);
     f \<leftarrow> (if has_field cmp ''files'' \<and> isArray (jsprop cmp ''files'')
           then map_String ns (jsprop cmp ''files'') else Some (JArr []));
     d \<leftarrow> (if has_field cmp ''dependencies'' \<and> isArray (jsprop cmp ''dependencies'')
           then map_String ns (jsprop cmp ''dependencies'') else Some JUndefined);
     r \<leftarrow> (if has_field cmp ''registryDependencies'' \<and> isArray (jsprop cmp ''registryDependencies'')
           then map_String ns (jsprop cmp ''registryDependencies'') else Some JUndefined);
     let t = (if has_field cmp ''type'' \<and> typeof (jsprop cmp ''type'') = ''string''
              then jsprop cmp ''type'' else JStr ''unknown'');
     Some \<lparr>component.name = n, description = ds, dependencies = d,
           registryDependencies = r, files = f, type = t\<rparr>
   }"

text \<open>
  The branch on the registry's name. The result is the pair of what was written to the
  console and either the value that is thrown or \<open>processedComponents\<close>. In the two vendor
  branches a TypeError of the runtime escapes as it is; the fallback branch catches whatever
  its \<open>map\<close> raises and throws its own error instead. Of a console call the first
  argument is recorded; the second, where there is one, is the caught value.
\<close>

datatype console = ConsoleWarn string | ConsoleError string

definition process_raw ::
  "'n engine \<Rightarrow> registry \<Rightarrow> 'n jsval \<Rightarrow> console list \<times> (thrown + 'n component list)" where
  "process_raw eng reg rawData =
     (if registry.name reg = ''Shadcn UI'' then
        (case js_map shadcn_entry rawData of
           None \<Rightarrow> ([], Inl (ErrorObj (type_error_message eng)))
         | Some cs \<Rightarrow> ([], Inr cs))
      else if registry.name reg = ''Kitze UI'' then
        (case Option.bind (get_prop rawData ''items'') (js_map kitze_entry) of
           None \<Rightarrow> ([], Inl (ErrorObj (type_error_message eng)))
         | Some cs \<Rightarrow> ([], Inr cs))
      else
        (case js_map (fallback_entry (number_to_string eng)) rawData of
           None \<Rightarrow>
             ([ConsoleWarn (''Processing unknown registry type: '' @ registry.name reg
                           @ ''. Assuming direct array structure.''),
               ConsoleError (''Error processing fallback registry '' @ registry.name reg @ '':'')],
              Inl (ErrorObj (''Failed to process data structure for registry: ''
                             @ registry.name reg)))
         | Some cs \<Rightarrow>
             ([ConsoleWarn (''Processing unknown registry type: '' @ registry.name reg
                           @ ''. Assuming direct array structure.'')],
              Inr cs)))"

text \<open>The filter \<open>c && c.name && c.name !== "Unknown Component"\<close>; \<open>c\<close> is always an object.\<close>

definition is_valid :: "'n engine \<Rightarrow> 'n component \<Rightarrow> bool" where
  "is_valid eng c \<longleftrightarrow>
     truthy (number_truthy eng) (component.name c)
     \<and> component.name c \<noteq> JStr ''Unknown Component''"

section \<open>State, effects and the fetch\<close>

text \<open>The four \<open>useState\<close> cells of \<open>Command\<close>.\<close>

record 'n state =
  selectedRegistry :: "registry option"
  components :: "'n component list"
  isLoading :: bool
  error :: "string option"

text \<open>
  What the network gives back. \<open>fetch\<close> either rejects or resolves to a response;
  \<open>text_result\<close> is \<open>None\<close> when \<open>response.text()\<close> rejects, \<open>json_result\<close> is \<open>Inl e\<close> when
  \<open>response.json()\<close> rejects with \<open>e\<close>.
\<close>

record 'n response =
  ok :: bool
  status :: nat
  statusText :: string
  text_result :: "string option"
  json_result :: "thrown + 'n jsval"

datatype 'n fetch_result = Rejected thrown | Responded "'n response"

datatype toast_style = Animated | Success | Failure

text \<open>
  The calls the handlers and actions make, in order: the state setters, the host's
  \<open>showToast\<close>, \<open>Clipboard.paste\<close>, \<open>Clipboard.copy\<close> and \<open>closeMainWindow\<close>, \<open>fetch\<close>, and
  the console. \<open>showToast\<close> and
  \<open>closeMainWindow\<close> are taken to resolve.
\<close>

datatype 'n effect =
    SetSelectedRegistry "registry option"
  | SetComponents "'n component list"
  | SetIsLoading bool
  | SetError "string option"
  | ShowToast toast_style string "string option"
  | HttpGet string
  | Console console
  | ClipboardPaste string
  | ClipboardCopy string
  | CloseMainWindow

fun apply_effect :: "'n state \<Rightarrow> 'n effect \<Rightarrow> 'n state" where
  "apply_effect s (SetSelectedRegistry r) = s\<lparr>selectedRegistry := r\<rparr>"
| "apply_effect s (SetComponents cs) = s\<lparr>components := cs\<rparr>"
| "apply_effect s (SetIsLoading b) = s\<lparr>isLoading := b\<rparr>"
| "apply_effect s (SetError e) = s\<lparr>error := e\<rparr>"
| "apply_effect s (ShowToast st t m) = s"
| "apply_effect s (HttpGet u) = s"
| "apply_effect s (Console c) = s"
| "apply_effect s (ClipboardPaste c) = s"
| "apply_effect s (ClipboardCopy c) = s"
| "apply_effect s CloseMainWindow = s"

definition run :: "'n effect list \<Rightarrow> 'n state \<Rightarrow> 'n state" where
  "run es s = foldl apply_effect s es"

text \<open>\<open>e instanceof Error ? e.message : "An unknown error occurred"\<close>.\<close>

fun errorMessage :: "thrown \<Rightarrow> string" where
  "errorMessage (ErrorObj m) = m"
| "errorMessage NonError = ''An unknown error occurred''"

text \<open>The \<open>try\<close> block of \<open>fetchComponents\<close> from the response on, up to \<open>processedComponents\<close>.\<close>

definition fetch_body ::
  "'n engine \<Rightarrow> registry \<Rightarrow> 'n fetch_result \<Rightarrow> console list \<times> (thrown + 'n component list)" where
  "fetch_body eng reg res =
     (case res of
        Rejected e \<Rightarrow> ([], Inl e)
      | Responded r \<Rightarrow>
          if \<not> ok r then
            ([], Inl (ErrorObj (''HTTP '' @ show_nat (status r) @ '': '' @ statusText r @ '' - ''
                               @ (case text_result r of Some b \<Rightarrow> b | None \<Rightarrow> ''Unknown error''))))
          else (case json_result r of
                  Inl e \<Rightarrow> ([], Inl e)
                | Inr rawData \<Rightarrow> process_raw eng reg rawData))"

text \<open>\<open>fetchComponents\<close>: what runs before the request, the request, and what runs after it.\<close>

definition before_request :: "registry \<Rightarrow> 'n effect list" where
  "before_request reg =
     [SetIsLoading True, SetError None, SetComponents [],
      ShowToast Animated (''Fetching from '' @ registry.name reg @ ''...'') None]"

definition after_response :: "'n engine \<Rightarrow> registry \<Rightarrow> 'n fetch_result \<Rightarrow> 'n effect list" where
  "after_response eng reg res =
     (case fetch_body eng reg res of
        (log, Inr processedComponents) \<Rightarrow>
          (let validComponents = filter (is_valid eng) processedComponents in
           map Console log @
           [SetComponents validComponents,
            ShowToast Success ''Components loaded''
              (Some (show_nat (length validComponents) @ '' components found in ''
                     @ registry.name reg))])
      | (log, Inl e) \<Rightarrow>
          map Console log @
          [Console (ConsoleError ''Fetch error:''),
           SetError (Some (errorMessage e)),
           ShowToast Failure ''Error Fetching Components'' (Some (errorMessage e))])
     @ [SetIsLoading False]"

definition fetchComponents :: "'n engine \<Rightarrow> registry \<Rightarrow> 'n fetch_result \<Rightarrow> 'n effect list" where
  "fetchComponents eng reg res =
     before_request reg @ [HttpGet (jsonUrl reg)] @ after_response eng reg res"

definition handleSelectRegistry :: "'n engine \<Rightarrow> registry \<Rightarrow> 'n fetch_result \<Rightarrow> 'n effect list" where
  "handleSelectRegistry eng reg res = SetSelectedRegistry (Some reg) # fetchComponents eng reg res"

definition handleGoBack :: "'n effect list" where
  "handleGoBack = [SetSelectedRegistry None, SetComponents [], SetError None]"

text \<open>
  \<open>handlePasteComponentUrl\<close>; \<open>paste_rejects\<close> is \<open>Some s\<close> when \<open>Clipboard.paste\<close> rejects
  with a value whose \<open>String\<close> form is \<open>s\<close>.
\<close>

definition handlePasteComponentUrl :: "string option \<Rightarrow> registry \<Rightarrow> string \<Rightarrow> 'n effect list" where
  "handlePasteComponentUrl paste_rejects reg componentName =
     (let componentJsonUrl = componentJsonBaseUrl reg @ componentName @ ''.json'' in
      case paste_rejects of
        None \<Rightarrow>
          [ClipboardPaste componentJsonUrl,
           ShowToast Success ''Pasted Component URL'' (Some componentJsonUrl),
           CloseMainWindow]
      | Some e \<Rightarrow>
          [ClipboardPaste componentJsonUrl,
           ShowToast Failure ''Failed to Paste URL'' (Some e)])"

section \<open>The view\<close>

text \<open>\<open>Command\<close> renders the registry list when \<open>selectedRegistry\<close> is null, else the components.\<close>

datatype view_mode = RegistryList | ComponentList

definition view_mode :: "'n state \<Rightarrow> view_mode" where
  "view_mode s = (case selectedRegistry s of None \<Rightarrow> RegistryList | Some r \<Rightarrow> ComponentList)"

text \<open>
  \<open>{error && <List.EmptyView title=... description={error} />}\<close>: the title and description
  of the error panel, when one is rendered. An empty string is falsy.
\<close>

definition error_view :: "'n state \<Rightarrow> (string \<times> string) option" where
  "error_view s =
     (case error s of
        None \<Rightarrow> None
      | Some e \<Rightarrow>
          if e = [] then None
          else Some (case selectedRegistry s of
                       None \<Rightarrow> ''Error Loading Registries''
                     | Some r \<Rightarrow> ''Error Fetching Components'', e))"

text \<open>
  The actions a row offers: each with its title and either its content or the effects of
  its handler.
\<close>

datatype 'n action =
    Paste string string
  | CopyToClipboard string string
  | Action string "'n effect list"

text \<open>What the host does when the user triggers an action.\<close>

fun perform :: "'n action \<Rightarrow> 'n effect list" where
  "perform (Paste title content) = [ClipboardPaste content]"
| "perform (CopyToClipboard title content) = [ClipboardCopy content]"
| "perform (Action title onAction) = onAction"

fun clipboard_text :: "'n effect \<Rightarrow> string option" where
  "clipboard_text (ClipboardPaste c) = Some c"
| "clipboard_text (ClipboardCopy c) = Some c"
| "clipboard_text e = None"

subsection \<open>\<open>getCleanDepName\<close>\<close>

text \<open>\<open>s.split(c)\<close> for a separator of one character; the result is never empty.\<close>

fun js_split :: "char \<Rightarrow> string \<Rightarrow> string list" where
  "js_split c [] = [[]]"
| "js_split c (x # xs) =
     (if x = c then [] # js_split c xs
      else (case js_split c xs of
              [] \<Rightarrow> [[x]]
            | w # ws \<Rightarrow> (x # w) # ws))"

text \<open>\<open>s.replace(pat, rep)\<close> for a string pattern: only the first occurrence is replaced.\<close>

fun js_replace :: "string \<Rightarrow> string \<Rightarrow> string \<Rightarrow> string" where
  "js_replace pat rep [] = (if pat = [] then rep else [])"
| "js_replace pat rep (x # xs) =
     (if prefix pat (x # xs) then rep @ drop (length pat) (x # xs)
      else x # js_replace pat rep xs)"

text \<open>
  \<open>getCleanDepName\<close>. The URL parser belongs to the platform: \<open>url_pathname dep\<close> is the
  \<open>pathname\<close> of \<open>new URL(dep)\<close>, or \<open>None\<close> when the constructor throws.
\<close>

definition getCleanDepName :: "(string \<Rightarrow> string option) \<Rightarrow> string \<Rightarrow> string" where
  "getCleanDepName url_pathname dep =
     (case url_pathname dep of
        None \<Rightarrow> dep
      | Some pathname \<Rightarrow>
          if suffix ''.json'' pathname then
            (let parts = js_split CHR ''/'' pathname;
                 filename = last parts
             in js_replace ''.json'' '''' filename)
          else dep)"

subsection \<open>The row of a component\<close>

text \<open>
  The callback of \<open>components.map\<close> in the component view builds, for one component, the
  markdown of the detail panel and then the \<open>List.Item\<close> with its subtitle, keywords and
  actions. The fields of a component hold whatever the fetch left there, so each step is
  taken on untyped values and may raise a TypeError (\<open>None\<close>); a row exists only when none
  does.
\<close>

text \<open>The truthiness of \<open>v?.length\<close>.\<close>

fun has_length :: "('n \<Rightarrow> bool) \<Rightarrow> 'n jsval \<Rightarrow> bool" where
  "has_length nt JUndefined = False"
| "has_length nt JNull = False"
| "has_length nt (JBool b) = False"
| "has_length nt (JNum n) = False"
| "has_length nt (JStr s) = (s \<noteq> [])"
| "has_length nt (JArr xs) = (xs \<noteq> [])"
| "has_length nt (JObj ps) = truthy nt (jsprop (JObj ps) ''length'')"

text \<open>\<open>ss.join(sep)\<close> on an array of strings.\<close>

fun join_strings :: "string \<Rightarrow> string list \<Rightarrow> string" where
  "join_strings sep [] = []"
| "join_strings sep [s] = s"
| "join_strings sep (s # t # ss) = s @ sep @ join_strings sep (t # ss)"

text \<open>
  \<open>v.join(sep)\<close> on any value: only an array has a callable \<open>join\<close>; its \<open>null\<close> and
  \<open>undefined\<close> elements give the empty string, the others their \<open>String\<close> form.
\<close>

fun array_join :: "('n \<Rightarrow> string) \<Rightarrow> string \<Rightarrow> 'n jsval \<Rightarrow> string option" where
  "array_join ns sep (JArr xs) =
     map_option (join_strings sep)
       (those (map (\<lambda>x. if x = JUndefined \<or> x = JNull then Some '''' else ToString ns x) xs))"
| "array_join ns sep v = None"

text \<open>
  \<open>...(v ?? [])\<close> inside an array literal: \<open>null\<close> and \<open>undefined\<close> give nothing, an array
  its elements, a string its code points; no other value is iterable.
\<close>

fun spread :: "(string \<Rightarrow> string list) \<Rightarrow> 'n jsval \<Rightarrow> 'n jsval list option" where
  "spread cps JUndefined = Some []"
| "spread cps JNull = Some []"
| "spread cps (JArr xs) = Some xs"
| "spread cps (JStr s) = Some (map JStr (cps s))"
| "spread cps v = None"

text \<open>
  \<open>getCleanDepName\<close> as the row calls it, on an element of \<open>registryDependencies\<close> of any
  type: \<open>new URL(dep)\<close> first converts \<open>dep\<close> to a string, inside the \<open>try\<close>; when nothing
  is returned there, the value \<open>dep\<close> itself is. On a string it is \<open>getCleanDepName\<close>.
\<close>

definition getCleanDepName_any ::
  "('n \<Rightarrow> string) \<Rightarrow> (string \<Rightarrow> string option) \<Rightarrow> 'n jsval \<Rightarrow> 'n jsval" where
  "getCleanDepName_any ns url_pathname dep =
     (case ToString ns dep of
        None \<Rightarrow> dep
      | Some s \<Rightarrow>
          (case url_pathname s of
             None \<Rightarrow> dep
           | Some pathname \<Rightarrow>
               if suffix ''.json'' pathname then
                 (let parts = js_split CHR ''/'' pathname;
                      filename = last parts
                  in JStr (js_replace ''.json'' '''' filename))
               else dep))"

text \<open>
  One of the three list sections of the markdown:
  \<open>v?.length ? `heading\n${v.map(line).join("\n")}` : ""\<close>.
\<close>

definition markdown_section ::
  "('n \<Rightarrow> bool) \<Rightarrow> string \<Rightarrow> ('n jsval \<Rightarrow> string option) \<Rightarrow> 'n jsval \<Rightarrow> string option" where
  "markdown_section nt heading line v =
     (if has_length nt v
      then map_option (\<lambda>ls. heading @ [CHR 0x0A] @ join_strings [CHR 0x0A] ls) (js_map line v)
      else Some '''')"

text \<open>The \<open>ActionPanel\<close> of the row, the last expression the callback evaluates.\<close>

definition action_panel ::
  "('n \<Rightarrow> string) \<Rightarrow> registry \<Rightarrow> 'n component \<Rightarrow> 'n action list option" where
  "action_panel ns selected component = do {
     n \<leftarrow> ToString ns (component.name component);
     Some [Paste ''Paste Install Command (with URL)''
             (''npx shadcn-ui@latest add '' @ componentJsonBaseUrl selected @ n @ ''.json''),
           CopyToClipboard ''Copy Install Command (name only)''
             (''npx shadcn-ui@latest add '' @ n),
           Action ''Go Back to Registries'' handleGoBack]
   }"

text \<open>
  The properties \<open>key\<close>, \<open>title\<close>, \<open>subtitle\<close>, \<open>keywords\<close>, \<open>detail\<close> (its markdown) and
  \<open>actions\<close> of the \<open>List.Item\<close>; its icon is the constant \<open>Icon.Code\<close>.
\<close>

record 'n list_item =
  item_key :: "'n jsval"
  item_title :: "'n jsval"
  item_subtitle :: "'n jsval"
  item_keywords :: "'n jsval list"
  item_detail :: string
  item_actions :: "'n action list"

definition render_row ::
  "'n engine \<Rightarrow> (string \<Rightarrow> string option) \<Rightarrow> registry \<Rightarrow> 'n component
   \<Rightarrow> 'n list_item option" where
  "render_row eng url_pathname selected component = do {
     let ns = number_to_string eng;
     let nt = number_truthy eng;
     n \<leftarrow> ToString ns (component.name component);
     d \<leftarrow> ToString ns (if truthy nt (description component) then description component
                      else JStr ''*No description available.*'');
     deps \<leftarrow> markdown_section nt ''**Dependencies:**''
               (\<lambda>dep. map_option (\<lambda>s. ''* '' @ s) (ToString ns dep))
               (dependencies component);
     regs \<leftarrow> markdown_section nt ''**Registry Dependencies:**''
               (\<lambda>dep. map_option (\<lambda>s. ''* '' @ s)
                        (ToString ns (getCleanDepName_any ns url_pathname dep)))
               (registryDependencies component);
     fls \<leftarrow> markdown_section nt ''**Files:**''
              (\<lambda>file. map_option (\<lambda>s. ''* `'' @ s @ ''`'') (ToString ns file))
              (files component);
     let detailMarkdown =
           [CHR 0x0A] @ ''# '' @ n @ [CHR 0x0A, CHR 0x0A] @ d @ [CHR 0x0A, CHR 0x0A]
           @ deps @ [CHR 0x0A, CHR 0x0A] @ regs @ [CHR 0x0A, CHR 0x0A] @ fls
           @ [CHR 0x0A] @ ''          '';
     sub \<leftarrow> (if truthy nt (description component) then Some (description component)
             else map_option JStr (array_join ns '', '' (files component)));
     k1 \<leftarrow> spread (code_points eng) (dependencies component);
     k2 \<leftarrow> spread (code_points eng) (registryDependencies component);
     as \<leftarrow> action_panel ns selected component;
     Some \<lparr>item_key = component.name component, item_title = component.name component,
           item_subtitle = sub, item_keywords = k1 @ k2, item_detail = detailMarkdown,
           item_actions = as\<rparr>
   }"

text \<open>The component view maps the callback over the list; one raising row fails the render.\<close>

definition render_rows ::
  "'n engine \<Rightarrow> (string \<Rightarrow> string option) \<Rightarrow> registry \<Rightarrow> 'n component list
   \<Rightarrow> 'n list_item list option" where
  "render_rows eng url_pathname selected cs = those (map (render_row eng url_pathname selected) cs)"

section \<open>Well-formed responses\<close>

text \<open>
  A response is well formed when it has the shape of the interface the program casts it to:
  \<open>ShadcnIndexComponentRaw[]\<close> for the flat array, \<open>KitzeRegistryResponse\<close> (with
  \<open>KitzeComponentRaw\<close> and \<open>KitzeFile\<close>) for the nested one. A field declared with \<open>?\<close> may
  be absent.
\<close>

fun is_string :: "'n jsval \<Rightarrow> bool" where
  "is_string (JStr s) = True"
| "is_string v = False"

fun is_object :: "'n jsval \<Rightarrow> bool" where
  "is_object (JObj ps) = True"
| "is_object v = False"

fun is_array_of :: "('n jsval \<Rightarrow> bool) \<Rightarrow> 'n jsval \<Rightarrow> bool" where
  "is_array_of P (JArr xs) = list_all P xs"
| "is_array_of P v = False"

definition optional :: "('n jsval \<Rightarrow> bool) \<Rightarrow> 'n jsval \<Rightarrow> bool" where
  "optional P v \<longleftrightarrow> v = JUndefined \<or> P v"

definition is_ShadcnIndexComponentRaw :: "'n jsval \<Rightarrow> bool" where
  "is_ShadcnIndexComponentRaw v \<longleftrightarrow>
     is_object v
     \<and> is_string (jsprop v ''name'')
     \<and> optional (is_array_of is_string) (jsprop v ''dependencies'')
     \<and> optional (is_array_of is_string) (jsprop v ''registryDependencies'')
     \<and> is_array_of is_string (jsprop v ''files'')
     \<and> is_string (jsprop v ''type'')"

definition is_KitzeFile :: "'n jsval \<Rightarrow> bool" where
  "is_KitzeFile v \<longleftrightarrow>
     is_object v \<and> is_string (jsprop v ''path'') \<and> is_string (jsprop v ''type'')"

definition is_KitzeComponentRaw :: "'n jsval \<Rightarrow> bool" where
  "is_KitzeComponentRaw v \<longleftrightarrow>
     is_object v
     \<and> is_string (jsprop v ''name'')
     \<and> optional is_string (jsprop v ''title'')
     \<and> optional is_string (jsprop v ''description'')
     \<and> optional (is_array_of is_string) (jsprop v ''dependencies'')
     \<and> optional (is_array_of is_string) (jsprop v ''registryDependencies'')
     \<and> is_array_of is_KitzeFile (jsprop v ''files'')
     \<and> is_string (jsprop v ''type'')"

definition is_KitzeRegistryResponse :: "'n jsval \<Rightarrow> bool" where
  "is_KitzeRegistryResponse v \<longleftrightarrow>
     is_object v
     \<and> is_string (jsprop v ''$schema'')
     \<and> is_string (jsprop v ''name'')
     \<and> is_string (jsprop v ''homepage'')
     \<and> is_array_of is_KitzeComponentRaw (jsprop v ''items'')"

text \<open>The elements of an array value.\<close>

fun elements :: "'n jsval \<Rightarrow> 'n jsval list" where
  "elements (JArr xs) = xs"
| "elements v = []"

text \<open>
  The values \<open>String\<close> converts without raising: no object with an own \<open>toString\<close>
  property, at any depth of nested arrays.
\<close>

fun stringifiable :: "'n jsval \<Rightarrow> bool" where
  "stringifiable (JObj ps) = (''toString'' \<notin> fst ` set ps)"
| "stringifiable (JArr xs) = list_all stringifiable xs"
| "stringifiable v = True"

section \<open>Concrete inputs\<close>

text \<open>An engine whose numbers are the naturals, to evaluate the model on examples.\<close>

definition nat_engine :: "nat engine" where
  "nat_engine = \<lparr>number_to_string = show_nat, number_truthy = (\<lambda>n. n \<noteq> 0),
                 type_error_message = ''TypeError'', code_points = map (\<lambda>c. [c])\<rparr>"

definition shadcn_registry :: registry where
  "shadcn_registry = availableRegistries ! 0"

definition kitze_registry :: registry where
  "kitze_registry = availableRegistries ! 1"

definition other_registry :: registry where
  "other_registry =
     \<lparr>registry.name = ''Acme UI'', jsonUrl = ''https://acme.test/registry.json'',
      componentJsonBaseUrl = ''https://acme.test/r/'',
      registry.description = ''Acme components'', icon = None\<rparr>"

definition button_component :: "nat component" where
  "button_component =
     \<lparr>component.name = JStr ''button'', description = JUndefined,
      dependencies = JArr [JStr ''@radix-ui/react-slot''], registryDependencies = JUndefined,
      files = JArr [JStr ''ui/button.tsx''], type = JStr ''components:ui''\<rparr>"

definition loaded_state :: "nat state" where
  "loaded_state =
     \<lparr>selectedRegistry = Some shadcn_registry, components = [button_component],
      isLoading = False, error = Some ''HTTP 500: Internal Server Error - ''\<rparr>"

definition not_found :: "nat response" where
  "not_found =
     \<lparr>ok = False, status = 404, statusText = ''Not Found'', text_result = None,
      json_result = Inl NonError\<rparr>"

text \<open>A stand-in for the URL parser on three sample strings.\<close>

definition sample_pathname :: "string \<Rightarrow> string option" where
  "sample_pathname d =
     (if d = ''https://ui.kitze.io/r/data.json.json'' then Some ''/r/data.json.json''
      else if d = ''https://ui.kitze.io/docs'' then Some ''/docs''
      else None)"

text \<open>Sample entries and responses.\<close>

definition button_entry :: "nat jsval" where
  "button_entry =
     JObj [(''name'', JStr ''button''),
           (''dependencies'', JArr [JStr ''@radix-ui/react-slot'']),
           (''files'', JArr [JStr ''ui/button.tsx'']),
           (''type'', JStr ''components:ui'')]"

definition sentinel_entry :: "nat jsval" where
  "sentinel_entry =
     JObj [(''name'', JStr ''Unknown Component''),
           (''files'', JArr [JStr ''ui/unknown.tsx'']),
           (''type'', JStr ''components:ui'')]"

definition ok_response :: "nat jsval \<Rightarrow> nat response" where
  "ok_response rawData =
     \<lparr>ok = True, status = 200, statusText = ''OK'', text_result = None,
      json_result = Inr rawData\<rparr>"

definition kitze_sample :: "nat jsval" where
  "kitze_sample =
     JObj [(''$schema'', JStr ''https://ui.shadcn.com/schema/registry.json''),
           (''name'', JStr ''kitze-ui''),
           (''homepage'', JStr ''https://ui.kitze.io''),
           (''items'',
            JArr [JObj [(''name'', JStr ''simple-select''),
                        (''description'', JStr ''A select''),
                        (''files'',
                         JArr [JObj [(''path'', JStr ''registry/simple-select.tsx''),
                                     (''type'', JStr ''registry:ui'')],
                               JObj [(''path'', JStr ''registry/use-select.ts''),
                                     (''type'', JStr ''registry:hook'')]]),
                        (''type'', JStr ''registry:ui'')]])]"

definition nameless_entry :: "nat jsval" where
  "nameless_entry = JObj [(''files'', JArr [JStr ''ui/x.tsx'']), (''type'', JStr ''components:ui'')]"

definition sentinel_component :: "nat component" where
  "sentinel_component =
     \<lparr>component.name = JStr ''Unknown Component'', description = JUndefined,
      dependencies = JUndefined, registryDependencies = JUndefined,
      files = JArr [JStr ''ui/unknown.tsx''], type = JStr ''components:ui''\<rparr>"

definition array_named_entries :: "nat jsval list" where
  "array_named_entries =
     [JObj [(''name'', JArr []),
            (''files'', JArr [JStr ''ui/a.tsx'']),
            (''type'', JStr ''components:ui'')],
      JObj [(''name'', JArr [JStr ''Unknown Component'']),
            (''files'', JArr [JStr ''ui/b.tsx'']),
            (''type'', JStr ''components:ui'')]]"

definition shadowing_entry :: "nat jsval" where
  "shadowing_entry =
     JObj [(''name'', JStr ''button''),
           (''files'', JArr [JObj [(''toString'', JNull)]])]"

section \<open>Running effects\<close>

lemma run_Nil [simp]: "run [] s = s"
  by (simp add: run_def)

lemma run_Cons [simp]: "run (e # es) s = run es (apply_effect s e)"
  by (simp add: run_def)

lemma run_append: "run (es @ fs) s = run fs (run es s)"
  by (simp add: run_def)

lemma run_Console [simp]: "run (map Console log) s = s"
  by (induction log arbitrary: s) simp_all

lemma run_before_request:
  "run (before_request reg) s = s\<lparr>isLoading := True, error := None, components := []\<rparr>"
  by (simp add: before_request_def)

lemma no_request_before: "HttpGet u \<notin> set (before_request reg)"
  by (simp add: before_request_def)

lemma no_request_after: "HttpGet u \<notin> set (after_response eng reg res)"
  by (auto simp: after_response_def Let_def split: prod.splits sum.splits)

lemma run_fetch_failed:
  assumes "fetch_body eng reg res = (log, Inl e)"
  shows "run (fetchComponents eng reg res) s
         = s\<lparr>isLoading := False, error := Some (errorMessage e), components := []\<rparr>"
  using assms
  by (simp add: fetchComponents_def after_response_def run_append run_before_request)

lemma run_fetch_loaded:
  assumes "fetch_body eng reg res = (log, Inr cs)"
  shows "run (fetchComponents eng reg res) s
         = s\<lparr>isLoading := False, error := None, components := filter (is_valid eng) cs\<rparr>"
  using assms
  by (simp add: fetchComponents_def after_response_def run_append run_before_request Let_def)

lemma no_clipboard_in_fetch:
  assumes "e \<in> set (fetchComponents eng reg res)"
  shows "clipboard_text e = None"
proof (cases "fetch_body eng reg res")
  case (Pair log r)
  then show ?thesis
    using assms
    by (cases r)
       (auto simp: fetchComponents_def before_request_def after_response_def Let_def)
qed

section \<open>Going back\<close>

text \<open>
  C5. From any state, and so from any state showing the components of a registry, the
  back action leaves no selected registry, an empty component list and no error, and the
  view is the registry list again.
\<close>

theorem handleGoBack_clears:
  "selectedRegistry (run handleGoBack s) = None
   \<and> components (run handleGoBack s) = []
   \<and> error (run handleGoBack s) = None
   \<and> view_mode (run handleGoBack s) = RegistryList"
  by (simp add: handleGoBack_def view_mode_def)

theorem handleGoBack_clears_witness:
  "view_mode loaded_state = ComponentList
   \<and> components loaded_state \<noteq> []
   \<and> error loaded_state \<noteq> None
   \<and> selectedRegistry (run handleGoBack loaded_state) = None
   \<and> components (run handleGoBack loaded_state) = []
   \<and> error (run handleGoBack loaded_state) = None
   \<and> view_mode (run handleGoBack loaded_state) = RegistryList"
  using handleGoBack_clears [of loaded_state]
  by (simp add: loaded_state_def view_mode_def)

section \<open>The start of a fetch\<close>

text \<open>
  C9. Every run of \<open>fetchComponents\<close> issues exactly one request, and the calls before it
  leave the component list empty and the error null whatever the state held before (the
  outcome of an earlier fetch included): the state before the request does not depend on
  the earlier components and error. \<open>handleSelectRegistry\<close> is the same run after setting
  the selected registry.
\<close>

theorem fetchComponents_resets_before_request:
  "\<exists>pre post.
     fetchComponents eng reg res = pre @ HttpGet (jsonUrl reg) # post
     \<and> (\<forall>u. HttpGet u \<notin> set pre \<and> HttpGet u \<notin> set post)
     \<and> components (run pre s) = []
     \<and> error (run pre s) = None
     \<and> isLoading (run pre s)
     \<and> run pre (s\<lparr>components := cs, error := err\<rparr>) = run pre s
     \<and> handleSelectRegistry eng reg res
         = SetSelectedRegistry (Some reg) # pre @ HttpGet (jsonUrl reg) # post"
  apply (rule exI [of _ "before_request reg"])
  apply (rule exI [of _ "after_response eng reg res"])
  apply (simp add: fetchComponents_def handleSelectRegistry_def run_before_request
      no_request_before no_request_after)
  done

theorem fetchComponents_resets_before_request_witness:
  "\<exists>pre post.
     fetchComponents nat_engine kitze_registry (Responded not_found)
       = pre @ HttpGet ''https://ui.kitze.io/registry.json'' # post
     \<and> components (run pre loaded_state) = []
     \<and> error (run pre loaded_state) = None
     \<and> components loaded_state \<noteq> []
     \<and> error loaded_state \<noteq> None"
proof -
  have u: "jsonUrl kitze_registry = ''https://ui.kitze.io/registry.json''"
    by (simp add: kitze_registry_def availableRegistries_def)
  have l: "components loaded_state \<noteq> [] \<and> error loaded_state \<noteq> None"
    by (simp add: loaded_state_def)
  from fetchComponents_resets_before_request
         [where eng = nat_engine and reg = kitze_registry and res = "Responded not_found"
            and s = loaded_state and cs = "[]" and err = None]
  show ?thesis
    unfolding u using l by blast
qed

section \<open>HTTP failure\<close>

lemma fetch_body_http_failure:
  "\<not> ok r \<Longrightarrow>
   fetch_body eng reg (Responded r) =
     ([], Inl (ErrorObj (''HTTP '' @ show_nat (status r) @ '': '' @ statusText r @ '' - ''
                        @ (case text_result r of Some b \<Rightarrow> b | None \<Rightarrow> ''Unknown error''))))"
  by (simp add: fetch_body_def)

text \<open>
  C4. When the response is not ok, the \<open>try\<close> block throws an error whose message contains
  the decimal status code, the status text and the body (\<open>Unknown error\<close> when the body
  cannot be read). After the run that message is the error state, it is what the error
  panel of the view shows, and it is the message of the failure toast.
\<close>

theorem http_failure_error_displayed:
  assumes "\<not> ok r"
  shows "\<exists>body msg.
           body = (case text_result r of Some b \<Rightarrow> b | None \<Rightarrow> ''Unknown error'')
           \<and> fetch_body eng reg (Responded r) = ([], Inl (ErrorObj msg))
           \<and> sublist (show_nat (status r)) msg
           \<and> sublist (statusText r) msg
           \<and> sublist body msg
           \<and> error (run (fetchComponents eng reg (Responded r)) s) = Some msg
           \<and> map_option snd (error_view (run (fetchComponents eng reg (Responded r)) s)) = Some msg
           \<and> ShowToast Failure ''Error Fetching Components'' (Some msg)
                 \<in> set (fetchComponents eng reg (Responded r))"
proof -
  define body where "body = (case text_result r of Some b \<Rightarrow> b | None \<Rightarrow> ''Unknown error'')"
  define msg where "msg = ''HTTP '' @ show_nat (status r) @ '': '' @ statusText r @ '' - '' @ body"
  have fb: "fetch_body eng reg (Responded r) = ([], Inl (ErrorObj msg))"
    using assms by (simp add: fetch_body_http_failure msg_def body_def)
  have s1: "sublist (show_nat (status r)) msg"
    unfolding msg_def by (rule sublist_appendI)
  have s2: "sublist (statusText r) msg"
    unfolding msg_def sublist_def
    by (rule exI [of _ "''HTTP '' @ show_nat (status r) @ '': ''"]) simp
  have s3: "sublist body msg"
    unfolding msg_def sublist_def
    by (rule exI [of _ "''HTTP '' @ show_nat (status r) @ '': '' @ statusText r @ '' - ''"]) simp
  have e: "error (run (fetchComponents eng reg (Responded r)) s) = Some msg"
    by (simp add: run_fetch_failed [OF fb])
  have ne: "msg \<noteq> []"
    by (simp add: msg_def)
  have v: "map_option snd (error_view (run (fetchComponents eng reg (Responded r)) s)) = Some msg"
    using ne by (simp add: error_view_def run_fetch_failed [OF fb])
  have t: "ShowToast Failure ''Error Fetching Components'' (Some msg)
             \<in> set (fetchComponents eng reg (Responded r))"
    by (simp add: fetchComponents_def after_response_def fb)
  show ?thesis
    using fb s1 s2 s3 e v t body_def by blast
qed

theorem http_failure_error_displayed_witness:
  "\<not> ok not_found
   \<and> error (run (fetchComponents nat_engine kitze_registry (Responded not_found)) loaded_state)
       = Some ''HTTP 404: Not Found - Unknown error''
   \<and> map_option snd
        (error_view (run (fetchComponents nat_engine kitze_registry (Responded not_found))
                       loaded_state))
       = Some ''HTTP 404: Not Found - Unknown error''"
proof -
  have h: "\<not> ok not_found"
    by (simp add: not_found_def)
  have sn: "show_nat 404 = ''404''"
    by code_simp
  from http_failure_error_displayed [OF h, of nat_engine kitze_registry loaded_state]
  obtain msg where
    fb: "fetch_body nat_engine kitze_registry (Responded not_found) = ([], Inl (ErrorObj msg))"
    and e: "error (run (fetchComponents nat_engine kitze_registry (Responded not_found))
                     loaded_state) = Some msg"
    and v: "map_option snd
              (error_view (run (fetchComponents nat_engine kitze_registry (Responded not_found))
                             loaded_state)) = Some msg"
    by blast
  have "fetch_body nat_engine kitze_registry (Responded not_found)
          = ([], Inl (ErrorObj ''HTTP 404: Not Found - Unknown error''))"
    by (simp add: fetch_body_def not_found_def sn)
  with fb have "msg = ''HTTP 404: Not Found - Unknown error''"
    by simp
  with h e v show ?thesis
    by simp
qed

section \<open>Install commands and the clipboard\<close>

lemma render_row_actions:
  "render_row eng up reg c = Some row \<Longrightarrow>
   action_panel (number_to_string eng) reg c = Some (item_actions row)"
  unfolding render_row_def Let_def
  by (auto split: Option.bind_splits)

lemma action_panel_Some:
  "action_panel ns reg c = Some as \<Longrightarrow>
   \<exists>n. ToString ns (component.name c) = Some n
       \<and> as = [Paste ''Paste Install Command (with URL)''
                   (''npx shadcn-ui@latest add '' @ componentJsonBaseUrl reg @ n @ ''.json''),
                 CopyToClipboard ''Copy Install Command (name only)''
                   (''npx shadcn-ui@latest add '' @ n),
                 Action ''Go Back to Registries'' handleGoBack]"
  by (auto simp: action_panel_def split: Option.bind_splits)

text \<open>
  The row callback raises before it reaches the \<open>ActionPanel\<close> when another field is not
  what the view expects: without a description, \<open>component.files.join\<close> needs an array.
\<close>

lemma render_row_raises_without_files:
  "render_row nat_engine sample_pathname kitze_registry (button_component\<lparr>files := JUndefined\<rparr>)
   = None"
  by code_simp

text \<open>
  C6. Whenever the rows of two components render under the same registry and the
  components have the same name, the two rows carry the same actions, hence the same two
  install-command strings, whatever the other fields of the components are; both strings
  are built from the registry's \<open>componentJsonBaseUrl\<close> and the string form of the name
  alone. The URL that \<open>handlePasteComponentUrl\<close> pastes is the same whether the paste
  succeeds or not.
\<close>

theorem install_commands_deterministic:
  assumes "reg1 = reg2" and "component.name c1 = component.name c2"
    and "render_row eng up reg1 c1 = Some row1" and "render_row eng up reg2 c2 = Some row2"
  shows "item_actions row1 = item_actions row2
         \<and> (\<exists>n. ToString (number_to_string eng) (component.name c1) = Some n
                \<and> item_actions row1
                  = [Paste ''Paste Install Command (with URL)''
                       (''npx shadcn-ui@latest add '' @ componentJsonBaseUrl reg1 @ n @ ''.json''),
                     CopyToClipboard ''Copy Install Command (name only)''
                       (''npx shadcn-ui@latest add '' @ n),
                     Action ''Go Back to Registries'' handleGoBack])
         \<and> List.map_filter clipboard_text (handlePasteComponentUrl p1 reg1 componentName :: 'n effect list)
           = List.map_filter clipboard_text (handlePasteComponentUrl p2 reg2 componentName :: 'n effect list)"
proof -
  let ?ns = "number_to_string eng"
  from assms(3) have a1: "action_panel ?ns reg1 c1 = Some (item_actions row1)"
    by (rule render_row_actions)
  from assms(4) have a2: "action_panel ?ns reg2 c2 = Some (item_actions row2)"
    by (rule render_row_actions)
  have "action_panel ?ns reg1 c1 = action_panel ?ns reg2 c2"
    using assms(1,2) by (simp add: action_panel_def)
  with a1 a2 have eq: "item_actions row1 = item_actions row2"
    by simp
  have p: "List.map_filter clipboard_text (handlePasteComponentUrl p1 reg1 componentName :: 'n effect list)
           = List.map_filter clipboard_text (handlePasteComponentUrl p2 reg2 componentName :: 'n effect list)"
    using assms(1)
    by (simp add: handlePasteComponentUrl_def Let_def List.map_filter_def split: option.splits)
  from eq action_panel_Some [OF a1] p show ?thesis
    by simp
qed

theorem install_commands_deterministic_witness:
  "button_component \<noteq> button_component\<lparr>files := JArr [], type := JNull\<rparr>
   \<and> (\<exists>row1 row2.
         render_row nat_engine sample_pathname kitze_registry button_component = Some row1
         \<and> render_row nat_engine sample_pathname kitze_registry
              (button_component\<lparr>files := JArr [], type := JNull\<rparr>) = Some row2
         \<and> item_subtitle row1 \<noteq> item_subtitle row2
         \<and> item_actions row1 = item_actions row2)"
proof -
  let ?c2 = "button_component\<lparr>files := JArr [], type := JNull\<rparr>"
  have n: "component.name button_component = component.name ?c2"
    by simp
  have d: "button_component \<noteq> ?c2"
    by (simp add: button_component_def)
  have "map_option item_subtitle
          (render_row nat_engine sample_pathname kitze_registry button_component)
        = Some (JStr ''ui/button.tsx'')"
    by code_simp
  then obtain row1 where r1:
    "render_row nat_engine sample_pathname kitze_registry button_component = Some row1"
    "item_subtitle row1 = JStr ''ui/button.tsx''"
    by auto
  have "map_option item_subtitle (render_row nat_engine sample_pathname kitze_registry ?c2)
        = Some (JStr [])"
    by code_simp
  then obtain row2 where r2:
    "render_row nat_engine sample_pathname kitze_registry ?c2 = Some row2"
    "item_subtitle row2 = JStr []"
    by auto
  from r1(2) r2(2) have s: "item_subtitle row1 \<noteq> item_subtitle row2"
    by simp
  have "item_actions row1 = item_actions row2"
    by (rule install_commands_deterministic [OF refl n r1(1) r2(1), THEN conjunct1])
  with d r1(1) r2(1) s show ?thesis
    by blast
qed

text \<open>
  C7. A string reaches the clipboard in three places only. The paste action of a row puts
  \<open>npx shadcn-ui@latest add\<close> followed by the manifest URL (the registry's
  \<open>componentJsonBaseUrl\<close>, the component's name, \<open>.json\<close>); the copy action puts
  \<open>npx shadcn-ui@latest add\<close> followed by the name; \<open>handlePasteComponentUrl\<close> puts the
  manifest URL itself. This holds of the \<open>ActionPanel\<close> expression and so of every row that
  renders. Selecting a registry, fetching and going back put nothing there.
\<close>

theorem clipboard_text_forms:
  "(action_panel ns reg c = Some as \<and> a \<in> set as \<and> e \<in> set (perform a)
      \<and> clipboard_text e = Some s
    \<longrightarrow> (\<exists>n. ToString ns (component.name c) = Some n
             \<and> (s = ''npx shadcn-ui@latest add '' @ n
                \<or> s = ''npx shadcn-ui@latest add '' @ (componentJsonBaseUrl reg @ n @ ''.json''))))
   \<and> (render_row eng up reg c = Some row \<and> a \<in> set (item_actions row) \<and> e \<in> set (perform a)
      \<and> clipboard_text e = Some s
    \<longrightarrow> (\<exists>n. ToString (number_to_string eng) (component.name c) = Some n
             \<and> (s = ''npx shadcn-ui@latest add '' @ n
                \<or> s = ''npx shadcn-ui@latest add '' @ (componentJsonBaseUrl reg @ n @ ''.json''))))
   \<and> (e' \<in> set (handlePasteComponentUrl p reg componentName) \<and> clipboard_text e' = Some s'
      \<longrightarrow> s' = componentJsonBaseUrl reg @ componentName @ ''.json'')
   \<and> (e'' \<in> set (handleSelectRegistry eng reg res) \<longrightarrow> clipboard_text e'' = None)"
proof -
  have panel: "\<exists>n. ToString ns (component.name c) = Some n
             \<and> (s = ''npx shadcn-ui@latest add '' @ n
                \<or> s = ''npx shadcn-ui@latest add '' @ (componentJsonBaseUrl reg @ n @ ''.json''))"
    if h: "action_panel ns reg c = Some as" "a \<in> set as" "e \<in> set (perform a)"
      "clipboard_text e = Some s" for ns as
  proof -
    from action_panel_Some [OF h(1)] obtain n where
      n: "ToString ns (component.name c) = Some n"
      and as: "as = [Paste ''Paste Install Command (with URL)''
                   (''npx shadcn-ui@latest add '' @ componentJsonBaseUrl reg @ n @ ''.json''),
                 CopyToClipboard ''Copy Install Command (name only)''
                   (''npx shadcn-ui@latest add '' @ n),
                 Action ''Go Back to Registries'' handleGoBack]"
      by blast
    from h(2,3,4) have "s = ''npx shadcn-ui@latest add '' @ n
                \<or> s = ''npx shadcn-ui@latest add '' @ (componentJsonBaseUrl reg @ n @ ''.json'')"
      unfolding as by (auto simp: handleGoBack_def)
    with n show ?thesis
      by blast
  qed
  have 1: "action_panel ns reg c = Some as \<and> a \<in> set as \<and> e \<in> set (perform a)
      \<and> clipboard_text e = Some s
    \<longrightarrow> (\<exists>n. ToString ns (component.name c) = Some n
             \<and> (s = ''npx shadcn-ui@latest add '' @ n
                \<or> s = ''npx shadcn-ui@latest add '' @ (componentJsonBaseUrl reg @ n @ ''.json'')))"
    using panel by blast
  have 2: "render_row eng up reg c = Some row \<and> a \<in> set (item_actions row) \<and> e \<in> set (perform a)
      \<and> clipboard_text e = Some s
    \<longrightarrow> (\<exists>n. ToString (number_to_string eng) (component.name c) = Some n
             \<and> (s = ''npx shadcn-ui@latest add '' @ n
                \<or> s = ''npx shadcn-ui@latest add '' @ (componentJsonBaseUrl reg @ n @ ''.json'')))"
    using panel render_row_actions by blast
  have 3: "e' \<in> set (handlePasteComponentUrl p reg componentName) \<and> clipboard_text e' = Some s'
      \<longrightarrow> s' = componentJsonBaseUrl reg @ componentName @ ''.json''"
    by (auto simp: handlePasteComponentUrl_def Let_def split: option.splits)
  have 4: "e'' \<in> set (handleSelectRegistry eng reg res) \<longrightarrow> clipboard_text e'' = None"
    by (auto simp: handleSelectRegistry_def dest: no_clipboard_in_fetch)
  from 1 2 3 4 show ?thesis
    by (intro conjI)
qed

theorem clipboard_text_forms_witness:
  "action_panel show_nat kitze_registry button_component
     = Some [Paste ''Paste Install Command (with URL)''
               ''npx shadcn-ui@latest add https://ui.kitze.io/r/button.json'',
             CopyToClipboard ''Copy Install Command (name only)''
               ''npx shadcn-ui@latest add button'',
             Action ''Go Back to Registries'' handleGoBack]
   \<and> map_option item_actions
        (render_row nat_engine sample_pathname kitze_registry button_component)
     = Some [Paste ''Paste Install Command (with URL)''
               ''npx shadcn-ui@latest add https://ui.kitze.io/r/button.json'',
             CopyToClipboard ''Copy Install Command (name only)''
               ''npx shadcn-ui@latest add button'',
             Action ''Go Back to Registries'' handleGoBack]
   \<and> (\<exists>n. ToString show_nat (component.name button_component) = Some n
          \<and> (''npx shadcn-ui@latest add https://ui.kitze.io/r/button.json''
               = ''npx shadcn-ui@latest add '' @ n
             \<or> ''npx shadcn-ui@latest add https://ui.kitze.io/r/button.json''
               = ''npx shadcn-ui@latest add '' @ (componentJsonBaseUrl kitze_registry @ n @ ''.json'')))
   \<and> handlePasteComponentUrl None kitze_registry ''button''
     = [ClipboardPaste ''https://ui.kitze.io/r/button.json'',
        ShowToast Success ''Pasted Component URL'' (Some ''https://ui.kitze.io/r/button.json''),
        CloseMainWindow :: nat effect]"
proof -
  let ?as = "[Paste ''Paste Install Command (with URL)''
               ''npx shadcn-ui@latest add https://ui.kitze.io/r/button.json'',
             CopyToClipboard ''Copy Install Command (name only)''
               ''npx shadcn-ui@latest add button'',
             Action ''Go Back to Registries'' handleGoBack :: nat action]"
  let ?a = "Paste ''Paste Install Command (with URL)''
               ''npx shadcn-ui@latest add https://ui.kitze.io/r/button.json'' :: nat action"
  let ?s = "''npx shadcn-ui@latest add https://ui.kitze.io/r/button.json''"
  have a: "action_panel show_nat kitze_registry button_component = Some ?as"
    by (simp add: action_panel_def button_component_def kitze_registry_def
        availableRegistries_def)
  have r: "map_option item_actions
             (render_row nat_engine sample_pathname kitze_registry button_component)
           = Some ?as"
    by code_simp
  have b: "?a \<in> set ?as \<and> ClipboardPaste ?s \<in> set (perform ?a)
           \<and> clipboard_text (ClipboardPaste ?s :: nat effect) = Some ?s"
    by simp
  have p: "handlePasteComponentUrl None kitze_registry ''button''
     = [ClipboardPaste ''https://ui.kitze.io/r/button.json'',
        ShowToast Success ''Pasted Component URL'' (Some ''https://ui.kitze.io/r/button.json''),
        CloseMainWindow :: nat effect]"
    by (simp add: handlePasteComponentUrl_def kitze_registry_def availableRegistries_def Let_def)
  have "\<exists>n. ToString show_nat (component.name button_component) = Some n
          \<and> (?s = ''npx shadcn-ui@latest add '' @ n
             \<or> ?s = ''npx shadcn-ui@latest add '' @ (componentJsonBaseUrl kitze_registry @ n @ ''.json''))"
    using clipboard_text_forms
         [where ns = show_nat and reg = kitze_registry and c = button_component and as = ?as
            and a = ?a and e = "ClipboardPaste ?s" and s = ?s, THEN conjunct1]
       a b
    by blast
  with a r p show ?thesis
    by (intro conjI)
qed

section \<open>Short names of registry dependencies\<close>

lemma js_split_nonempty: "js_split c s \<noteq> []"
  by (induction s) (auto split: list.splits)

lemma js_split_no_sep: "c \<notin> set s \<Longrightarrow> js_split c s = [s]"
  by (induction s) auto

lemma js_split_sep_two: "c \<in> set s \<Longrightarrow> \<exists>w v ws. js_split c s = w # v # ws"
proof (induction s)
  case Nil
  then show ?case by simp
next
  case (Cons x xs)
  show ?case
  proof (cases "x = c")
    case True
    then show ?thesis
      using js_split_nonempty [of c xs] by (cases "js_split c xs") auto
  next
    case False
    with Cons show ?thesis by auto
  qed
qed

lemma last_js_split:
  "last (js_split c s) = rev (takeWhile (\<lambda>x. x \<noteq> c) (rev s))"
proof (induction s)
  case Nil
  then show ?case by simp
next
  case (Cons x xs)
  show ?case
  proof (cases "x = c")
    case True
    then show ?thesis
      using Cons js_split_nonempty [of c xs] by (simp add: takeWhile_append)
  next
    case False
    show ?thesis
    proof (cases "c \<in> set xs")
      case True
      then obtain w v ws where "js_split c xs = w # v # ws"
        using js_split_sep_two by blast
      then show ?thesis
        using Cons False True by (auto simp: takeWhile_append)
    next
      case notin: False
      then show ?thesis
        using False by (simp add: js_split_no_sep takeWhile_append)
    qed
  qed
qed

lemma last_js_split_decomp:
  "\<exists>dir. s = dir @ last (js_split c s) \<and> (dir = [] \<or> last dir = c)
         \<and> c \<notin> set (last (js_split c s))"
proof -
  let ?P = "\<lambda>x. x \<noteq> c"
  let ?dir = "rev (dropWhile ?P (rev s))"
  have 1: "s = ?dir @ last (js_split c s)"
    unfolding last_js_split by (metis rev_append rev_rev_ident takeWhile_dropWhile_id)
  have 2: "?dir = [] \<or> last ?dir = c"
    using hd_dropWhile [of ?P "rev s"] by (auto simp: last_rev)
  have 3: "c \<notin> set (last (js_split c s))"
    unfolding last_js_split using set_takeWhileD by fastforce
  from 1 2 3 show ?thesis by blast
qed

lemma suffix_last_js_split:
  assumes "suffix t s" and "c \<notin> set t"
  shows "suffix t (last (js_split c s))"
proof -
  from assms obtain u where s: "s = u @ t" by (auto simp: suffix_def)
  have "takeWhile (\<lambda>x. x \<noteq> c) (rev t @ rev u) = rev t @ takeWhile (\<lambda>x. x \<noteq> c) (rev u)"
    using assms(2) by (simp add: takeWhile_append)
  then show ?thesis
    unfolding last_js_split s by (simp add: suffix_def)
qed

lemma js_replace_first:
  "sublist pat s \<Longrightarrow>
   \<exists>a b. s = a @ pat @ b \<and> (\<forall>a' b'. s = a' @ pat @ b' \<longrightarrow> length a \<le> length a')
         \<and> js_replace pat rep s = a @ rep @ b"
proof (induction s)
  case Nil
  then show ?case by simp
next
  case (Cons x xs)
  show ?case
  proof (cases "prefix pat (x # xs)")
    case True
    then obtain b where b: "x # xs = pat @ b" by (auto simp: prefix_def)
    have "drop (length pat) (x # xs) = b"
      unfolding b by simp
    then have "js_replace pat rep (x # xs) = [] @ rep @ b"
      using True by simp
    with b show ?thesis
      by (metis append_Nil le0 list.size(3))
  next
    case False
    with Cons.prems have "sublist pat xs"
      by (simp add: sublist_Cons_right)
    from Cons.IH [OF this] obtain a b where
      ab: "xs = a @ pat @ b" and
      mn: "\<forall>a' b'. xs = a' @ pat @ b' \<longrightarrow> length a \<le> length a'" and
      rp: "js_replace pat rep xs = a @ rep @ b"
      by blast
    have 1: "x # xs = (x # a) @ pat @ b" using ab by simp
    have 2: "js_replace pat rep (x # xs) = (x # a) @ rep @ b"
      using False rp by simp
    have 3: "length (x # a) \<le> length a'" if h: "x # xs = a' @ pat @ b'" for a' b'
    proof (cases a')
      case Nil
      with h have "prefix pat (x # xs)" by (simp add: prefix_def)
      with False show ?thesis by simp
    next
      case (Cons y ys)
      with h have "xs = ys @ pat @ b'" by simp
      with mn have "length a \<le> length ys" by blast
      with Cons show ?thesis by simp
    qed
    from 1 2 3 show ?thesis by blast
  qed
qed

lemma js_replace_absent: "\<not> sublist pat s \<Longrightarrow> js_replace pat rep s = s"
  by (induction s) (auto simp: sublist_Cons_right)

text \<open>
  C10. When the dependency parses as a URL whose pathname ends with \<open>.json\<close>, the short
  name is computed from the last segment of the pathname (what follows the last \<open>/\<close>, or
  the whole pathname when it has none): that segment with its first occurrence of \<open>.json\<close>
  cut out. In every other case, a string that is no URL included, the dependency is
  returned as it is.
\<close>

theorem getCleanDepName_short_name:
  "(\<forall>p. url_pathname dep = Some p \<and> suffix ''.json'' p \<longrightarrow>
       (\<exists>dir seg a b.
          p = dir @ seg \<and> (dir = [] \<or> last dir = CHR ''/'') \<and> CHR ''/'' \<notin> set seg
          \<and> seg = a @ ''.json'' @ b
          \<and> (\<forall>a' b'. seg = a' @ ''.json'' @ b' \<longrightarrow> length a \<le> length a')
          \<and> getCleanDepName url_pathname dep = a @ b))
   \<and> ((\<forall>p. url_pathname dep = Some p \<longrightarrow> \<not> suffix ''.json'' p) \<longrightarrow>
        getCleanDepName url_pathname dep = dep)"
proof (intro conjI allI impI)
  fix p
  assume h: "url_pathname dep = Some p \<and> suffix ''.json'' p"
  let ?seg = "last (js_split CHR ''/'' p)"
  from last_js_split_decomp [of p "CHR ''/''"] obtain dir where
    d: "p = dir @ ?seg" "dir = [] \<or> last dir = CHR ''/''" "CHR ''/'' \<notin> set ?seg"
    by blast
  have "suffix ''.json'' ?seg"
    using h by (intro suffix_last_js_split) simp_all
  then have "sublist ''.json'' ?seg"
    by (rule suffix_imp_sublist)
  from js_replace_first [OF this, of "''''"] obtain a b where
    ab: "?seg = a @ ''.json'' @ b"
        "\<forall>a' b'. ?seg = a' @ ''.json'' @ b' \<longrightarrow> length a \<le> length a'"
        "js_replace ''.json'' '''' ?seg = a @ b"
    by auto
  have "getCleanDepName url_pathname dep = a @ b"
    using h ab(3) by (simp add: getCleanDepName_def Let_def)
  with d ab(1,2) show "\<exists>dir seg a b.
          p = dir @ seg \<and> (dir = [] \<or> last dir = CHR ''/'') \<and> CHR ''/'' \<notin> set seg
          \<and> seg = a @ ''.json'' @ b
          \<and> (\<forall>a' b'. seg = a' @ ''.json'' @ b' \<longrightarrow> length a \<le> length a')
          \<and> getCleanDepName url_pathname dep = a @ b"
    by blast
next
  assume "\<forall>p. url_pathname dep = Some p \<longrightarrow> \<not> suffix ''.json'' p"
  then show "getCleanDepName url_pathname dep = dep"
    by (auto simp: getCleanDepName_def split: option.splits)
qed

theorem getCleanDepName_short_name_witness:
  "sample_pathname ''https://ui.kitze.io/r/data.json.json'' = Some ''/r/data.json.json''
   \<and> suffix ''.json'' ''/r/data.json.json''
   \<and> (\<exists>dir seg a b.
          ''/r/data.json.json'' = dir @ seg \<and> (dir = [] \<or> last dir = CHR ''/'')
          \<and> CHR ''/'' \<notin> set seg \<and> seg = a @ ''.json'' @ b
          \<and> (\<forall>a' b'. seg = a' @ ''.json'' @ b' \<longrightarrow> length a \<le> length a')
          \<and> getCleanDepName sample_pathname ''https://ui.kitze.io/r/data.json.json'' = a @ b)
   \<and> getCleanDepName sample_pathname ''https://ui.kitze.io/r/data.json.json'' = ''data.json''
   \<and> getCleanDepName sample_pathname ''https://ui.kitze.io/docs'' = ''https://ui.kitze.io/docs''
   \<and> getCleanDepName sample_pathname ''button'' = ''button''"
proof -
  have p: "sample_pathname ''https://ui.kitze.io/r/data.json.json'' = Some ''/r/data.json.json''"
    by (simp add: sample_pathname_def)
  have sf: "suffix ''.json'' ''/r/data.json.json''"
    by (simp add: suffix_to_prefix)
  have v: "getCleanDepName sample_pathname ''https://ui.kitze.io/r/data.json.json'' = ''data.json''"
    by (simp add: getCleanDepName_def p sf Let_def)
  have n1: "\<forall>p. sample_pathname ''https://ui.kitze.io/docs'' = Some p \<longrightarrow> \<not> suffix ''.json'' p"
    by (simp add: sample_pathname_def suffix_to_prefix)
  have n2: "\<forall>p. sample_pathname ''button'' = Some p \<longrightarrow> \<not> suffix ''.json'' p"
    by (simp add: sample_pathname_def)
  from getCleanDepName_short_name [of sample_pathname "''https://ui.kitze.io/r/data.json.json''"]
       getCleanDepName_short_name [of sample_pathname "''https://ui.kitze.io/docs''"]
       getCleanDepName_short_name [of sample_pathname "''button''"]
       p sf v n1 n2
  show ?thesis
    by blast
qed

section \<open>Normalising a response\<close>

lemma those_map_Some:
  "(\<And>x. x \<in> set xs \<Longrightarrow> f x = Some (g x)) \<Longrightarrow> those (map f xs) = Some (map g xs)"
  by (induction xs) simp_all

lemma shadcn_entry_object:
  "cmp \<noteq> JNull \<Longrightarrow> cmp \<noteq> JUndefined \<Longrightarrow>
   shadcn_entry cmp =
     Some \<lparr>component.name = jsprop cmp ''name'', description = JUndefined,
           dependencies = jsprop cmp ''dependencies'',
           registryDependencies = jsprop cmp ''registryDependencies'',
           files = jsprop cmp ''files'', type = jsprop cmp ''type''\<rparr>"
  by (simp add: shadcn_entry_def get_prop_def)

lemma is_object_not_nullish: "is_object v \<Longrightarrow> v \<noteq> JNull \<and> v \<noteq> JUndefined"
  by (cases v) simp_all

lemma fetch_body_ok:
  "ok r \<Longrightarrow> json_result r = Inr rawData \<Longrightarrow>
   fetch_body eng reg (Responded r) = process_raw eng reg rawData"
  by (simp add: fetch_body_def)

subsection \<open>The flat-array registry\<close>

text \<open>
  C1 (as amended). For the registry named \<open>Shadcn UI\<close> and a response that is an array of
  \<open>ShadcnIndexComponentRaw\<close> entries, every entry whose name is a non-empty string other
  than \<open>Unknown Component\<close> has its normalised component in the displayed list, with the
  entry's \<open>files\<close> value unchanged.
\<close>

theorem shadcn_named_entries_displayed:
  assumes reg: "registry.name reg = ''Shadcn UI''"
    and r: "ok r" "json_result r = Inr (JArr entries)"
    and wf: "list_all is_ShadcnIndexComponentRaw entries"
    and e: "entry \<in> set entries"
    and n: "jsprop entry ''name'' = JStr n" "n \<noteq> []" "n \<noteq> ''Unknown Component''"
  shows "\<exists>c. c \<in> set (components (run (fetchComponents eng reg (Responded r)) s))
             \<and> shadcn_entry entry = Some c
             \<and> component.name c = JStr n
             \<and> files c = jsprop entry ''files''"
proof -
  let ?f = "\<lambda>cmp. \<lparr>component.name = jsprop cmp ''name'', description = JUndefined,
           dependencies = jsprop cmp ''dependencies'',
           registryDependencies = jsprop cmp ''registryDependencies'',
           files = jsprop cmp ''files'', type = jsprop cmp ''type''\<rparr>"
  have ent: "shadcn_entry x = Some (?f x)" if "x \<in> set entries" for x
  proof -
    from wf that have "is_object x"
      by (auto simp: list_all_iff is_ShadcnIndexComponentRaw_def)
    then show ?thesis
      using is_object_not_nullish shadcn_entry_object by blast
  qed
  then have "js_map shadcn_entry (JArr entries) = Some (map ?f entries)"
    by (simp add: those_map_Some)
  then have "process_raw eng reg (JArr entries) = ([], Inr (map ?f entries))"
    using reg by (simp add: process_raw_def)
  then have fb: "fetch_body eng reg (Responded r) = ([], Inr (map ?f entries))"
    using r by (simp add: fetch_body_ok)
  have v: "is_valid eng (?f entry)"
    using n by (simp add: is_valid_def)
  have "?f entry \<in> set (components (run (fetchComponents eng reg (Responded r)) s))"
    using e v by (simp add: run_fetch_loaded [OF fb])
  with ent [OF e] n show ?thesis
    by auto
qed

text \<open>
  C1 as stated fails: a well-formed entry named \<open>Unknown Component\<close> has a non-empty name
  and is filtered out.
\<close>

theorem shadcn_sentinel_name_counterexample:
  "registry.name shadcn_registry = ''Shadcn UI''
   \<and> list_all is_ShadcnIndexComponentRaw [sentinel_entry]
   \<and> jsprop sentinel_entry ''name'' = JStr ''Unknown Component''
   \<and> ''Unknown Component'' \<noteq> ''''
   \<and> components (run (fetchComponents nat_engine shadcn_registry
                        (Responded (ok_response (JArr [sentinel_entry])))) loaded_state) = []"
proof -
  have fb: "fetch_body nat_engine shadcn_registry (Responded (ok_response (JArr [sentinel_entry])))
        = ([], Inr [\<lparr>component.name = JStr ''Unknown Component'', description = JUndefined,
                     dependencies = JUndefined, registryDependencies = JUndefined,
                     files = JArr [JStr ''ui/unknown.tsx''], type = JStr ''components:ui''\<rparr>])"
    by (simp add: fetch_body_def ok_response_def process_raw_def shadcn_registry_def
        availableRegistries_def sentinel_entry_def shadcn_entry_def get_prop_def)
  show ?thesis
    by (simp add: run_fetch_loaded [OF fb] is_valid_def)
       (simp add: shadcn_registry_def availableRegistries_def sentinel_entry_def
          is_ShadcnIndexComponentRaw_def optional_def)
qed

theorem shadcn_named_entries_displayed_witness:
  "\<exists>c. c \<in> set (components (run (fetchComponents nat_engine shadcn_registry
                      (Responded (ok_response (JArr [sentinel_entry, button_entry])))) loaded_state))
       \<and> component.name c = JStr ''button''
       \<and> files c = JArr [JStr ''ui/button.tsx'']"
proof -
  have 1: "registry.name shadcn_registry = ''Shadcn UI''"
    by (simp add: shadcn_registry_def availableRegistries_def)
  have 2: "ok (ok_response (JArr [sentinel_entry, button_entry]))"
    "json_result (ok_response (JArr [sentinel_entry, button_entry]))
       = Inr (JArr [sentinel_entry, button_entry])"
    by (simp_all add: ok_response_def)
  have 3: "list_all is_ShadcnIndexComponentRaw [sentinel_entry, button_entry]"
    by (simp add: sentinel_entry_def button_entry_def is_ShadcnIndexComponentRaw_def optional_def)
  have 4: "button_entry \<in> set [sentinel_entry, button_entry]"
    by simp
  have 5: "jsprop button_entry ''name'' = JStr ''button''" "''button'' \<noteq> []"
    "''button'' \<noteq> ''Unknown Component''"
    by (simp_all add: button_entry_def)
  have 6: "jsprop button_entry ''files'' = JArr [JStr ''ui/button.tsx'']"
    by (simp add: button_entry_def)
  from shadcn_named_entries_displayed [OF 1 2 3 4 5, of nat_engine loaded_state] 6
  show ?thesis
    by auto
qed

subsection \<open>What the list holds after a fetch\<close>

lemma components_after_fetch:
  "components (run (fetchComponents eng reg res) s)
   = (case snd (fetch_body eng reg res) of
        Inl e \<Rightarrow> []
      | Inr cs \<Rightarrow> filter (is_valid eng) cs)"
proof (cases "fetch_body eng reg res")
  case (Pair log r)
  then show ?thesis
    by (cases r) (simp_all add: run_fetch_failed run_fetch_loaded)
qed

lemma displayed_is_valid:
  "c \<in> set (components (run (fetchComponents eng reg res) s)) \<Longrightarrow> is_valid eng c"
  by (auto simp: components_after_fetch split: sum.splits)

lemma displayed_is_processed:
  "c \<in> set (components (run (fetchComponents eng reg res) s)) \<Longrightarrow>
   \<exists>cs. snd (fetch_body eng reg res) = Inr cs \<and> c \<in> set cs"
  by (cases "snd (fetch_body eng reg res)") (auto simp: components_after_fetch)

lemma fetch_body_Inr_process:
  "snd (fetch_body eng reg res) = Inr cs \<Longrightarrow>
   \<exists>rawData. snd (process_raw eng reg rawData) = Inr cs"
  by (auto simp: fetch_body_def split: fetch_result.splits if_splits sum.splits)

lemma those_Some_mem:
  "those (map f xs) = Some ys \<Longrightarrow> y \<in> set ys \<Longrightarrow> \<exists>x \<in> set xs. f x = Some y"
proof (induction xs arbitrary: ys)
  case Nil
  then show ?case by simp
next
  case (Cons x xs)
  then show ?case
    by (auto split: option.splits)
qed

lemma js_map_Some_mem:
  "js_map f v = Some ys \<Longrightarrow> y \<in> set ys \<Longrightarrow> \<exists>x. f x = Some y"
  by (cases v) (auto dest: those_Some_mem)

lemma typeof_string: "typeof v = ''string'' \<longleftrightarrow> is_string v"
  by (cases v) simp_all

lemma is_string_iff: "is_string v \<longleftrightarrow> (\<exists>s. v = JStr s)"
  by (cases v) simp_all

lemma fallback_entry_Some_name:
  "fallback_entry ns cmp = Some c \<Longrightarrow>
   component.name c
   = (if has_field cmp ''name'' \<and> typeof (jsprop cmp ''name'') = ''string''
      then jsprop cmp ''name'' else JStr ''Unknown Component'')"
  unfolding fallback_entry_def Let_def
  by (auto split: Option.bind_splits)

lemma fallback_entry_name:
  "fallback_entry ns cmp = Some c \<Longrightarrow> \<exists>n. component.name c = JStr n"
  by (auto simp: fallback_entry_Some_name typeof_string is_string_iff)

lemma fallback_processed_name:
  assumes "registry.name reg \<noteq> ''Shadcn UI''" "registry.name reg \<noteq> ''Kitze UI''"
    and "snd (process_raw eng reg rawData) = Inr cs" "c \<in> set cs"
  shows "\<exists>n. component.name c = JStr n"
proof -
  from assms(1-3) have "js_map (fallback_entry (number_to_string eng)) rawData = Some cs"
    by (auto simp: process_raw_def split: option.splits)
  from js_map_Some_mem [OF this assms(4)] show ?thesis
    using fallback_entry_name by blast
qed

lemma vendor_entry_name:
  "shadcn_entry e = Some c \<Longrightarrow> component.name c = jsprop e ''name''"
  "kitze_entry e = Some c \<Longrightarrow> component.name c = jsprop e ''name''"
  by (auto simp: shadcn_entry_def kitze_entry_def get_prop_def split: Option.bind_splits if_splits)

lemma fallback_entry_nameless:
  "fallback_entry ns e = Some c \<Longrightarrow> \<not> is_string (jsprop e ''name'') \<Longrightarrow>
   component.name c = JStr ''Unknown Component''"
  by (simp add: fallback_entry_Some_name typeof_string)

lemma fetch_body_Responded_process:
  "snd (fetch_body eng reg (Responded r)) = Inr cs \<Longrightarrow> json_result r = Inr rawData \<Longrightarrow>
   snd (process_raw eng reg rawData) = Inr cs"
  by (auto simp: fetch_body_def split: if_splits)

lemma is_array_of_elements: "is_array_of P v \<Longrightarrow> v = JArr (elements v) \<and> list_all P (elements v)"
  by (cases v) simp_all

lemma shadcn_processed_names:
  assumes "registry.name reg = ''Shadcn UI''"
    and "list_all is_ShadcnIndexComponentRaw entries"
    and "snd (process_raw eng reg (JArr entries)) = Inr cs" and "c \<in> set cs"
  shows "is_string (component.name c)"
proof -
  from assms(1,3) have "those (map shadcn_entry entries) = Some cs"
    by (auto simp: process_raw_def split: option.splits)
  from those_Some_mem [OF this assms(4)] obtain x where
    x: "x \<in> set entries" "shadcn_entry x = Some c"
    by blast
  from assms(2) x(1) have "is_string (jsprop x ''name'')"
    by (auto simp: list_all_iff is_ShadcnIndexComponentRaw_def)
  with vendor_entry_name(1) [OF x(2)] show ?thesis
    by simp
qed

lemma kitze_processed_names:
  assumes "registry.name reg = ''Kitze UI''"
    and "is_KitzeRegistryResponse rawData"
    and "snd (process_raw eng reg rawData) = Inr cs" and "c \<in> set cs"
  shows "is_string (component.name c)"
proof -
  from assms(2) have "is_array_of is_KitzeComponentRaw (jsprop rawData ''items'')"
    by (simp add: is_KitzeRegistryResponse_def)
  from is_array_of_elements [OF this]
  have i: "jsprop rawData ''items'' = JArr (elements (jsprop rawData ''items''))"
    and l: "list_all is_KitzeComponentRaw (elements (jsprop rawData ''items''))"
    by simp_all
  from assms(2) have o: "rawData \<noteq> JNull \<and> rawData \<noteq> JUndefined"
    using is_object_not_nullish by (auto simp: is_KitzeRegistryResponse_def)
  from assms(1,3) o have "js_map kitze_entry (jsprop rawData ''items'') = Some cs"
    by (auto simp: process_raw_def get_prop_def split: option.splits)
  with i have "those (map kitze_entry (elements (jsprop rawData ''items''))) = Some cs"
    by (metis js_map.simps(1))
  from those_Some_mem [OF this assms(4)] obtain x where
    x: "x \<in> set (elements (jsprop rawData ''items''))" "kitze_entry x = Some c"
    by blast
  from l x(1) have "is_string (jsprop x ''name'')"
    by (auto simp: list_all_iff is_KitzeComponentRaw_def)
  with vendor_entry_name(2) [OF x(2)] show ?thesis
    by simp
qed

text \<open>
  C2 (as amended). After any run of \<open>fetchComponents\<close>, every component of the list has a
  truthy name that is not the string \<open>Unknown Component\<close>: not undefined, not null, not the
  empty string. The name is a non-empty string other than \<open>Unknown Component\<close> whenever
  the fallback branch made the component, or the response was well formed for the
  \<open>Shadcn UI\<close> or the \<open>Kitze UI\<close> registry. An entry without a name, normalised by any of
  the three callbacks, and any component named \<open>Unknown Component\<close>, is not in the list.
\<close>

theorem displayed_names_valid:
  "(c \<in> set (components (run (fetchComponents eng reg res) s)) \<longrightarrow>
      truthy (number_truthy eng) (component.name c)
      \<and> component.name c \<noteq> JUndefined
      \<and> component.name c \<noteq> JNull
      \<and> component.name c \<noteq> JStr ''''
      \<and> component.name c \<noteq> JStr ''Unknown Component''
      \<and> (registry.name reg \<noteq> ''Shadcn UI'' \<and> registry.name reg \<noteq> ''Kitze UI''
          \<or> registry.name reg = ''Shadcn UI'' \<and> res = Responded r
             \<and> json_result r = Inr (JArr entries)
             \<and> list_all is_ShadcnIndexComponentRaw entries
          \<or> registry.name reg = ''Kitze UI'' \<and> res = Responded r
             \<and> json_result r = Inr rawData \<and> is_KitzeRegistryResponse rawData
          \<longrightarrow> (\<exists>n. component.name c = JStr n \<and> n \<noteq> [] \<and> n \<noteq> ''Unknown Component'')))
   \<and> ((jsprop e ''name'' = JUndefined
         \<and> (shadcn_entry e = Some c' \<or> kitze_entry e = Some c'
            \<or> fallback_entry (number_to_string eng) e = Some c')
        \<or> component.name c' = JStr ''Unknown Component'') \<longrightarrow>
       c' \<notin> set (components (run (fetchComponents eng reg res) s)))"
proof (intro conjI impI)
  assume c: "c \<in> set (components (run (fetchComponents eng reg res) s))"
  from displayed_is_valid [OF c]
  have v: "truthy (number_truthy eng) (component.name c)"
    "component.name c \<noteq> JStr ''Unknown Component''"
    by (simp_all add: is_valid_def)
  from v(1) show "truthy (number_truthy eng) (component.name c)" .
  from v(1) show "component.name c \<noteq> JUndefined" by auto
  from v(1) show "component.name c \<noteq> JNull" by auto
  from v(1) show "component.name c \<noteq> JStr ''''" by auto
  from v(2) show "component.name c \<noteq> JStr ''Unknown Component''" .
  assume f: "registry.name reg \<noteq> ''Shadcn UI'' \<and> registry.name reg \<noteq> ''Kitze UI''
          \<or> registry.name reg = ''Shadcn UI'' \<and> res = Responded r
             \<and> json_result r = Inr (JArr entries)
             \<and> list_all is_ShadcnIndexComponentRaw entries
          \<or> registry.name reg = ''Kitze UI'' \<and> res = Responded r
             \<and> json_result r = Inr rawData \<and> is_KitzeRegistryResponse rawData"
  from displayed_is_processed [OF c] obtain cs where
    cs: "snd (fetch_body eng reg res) = Inr cs" "c \<in> set cs"
    by blast
  have "is_string (component.name c)"
  proof -
    consider
      (fallback) "registry.name reg \<noteq> ''Shadcn UI''" "registry.name reg \<noteq> ''Kitze UI''"
    | (shadcn) "registry.name reg = ''Shadcn UI''" "res = Responded r"
        "json_result r = Inr (JArr entries)" "list_all is_ShadcnIndexComponentRaw entries"
    | (kitze) "registry.name reg = ''Kitze UI''" "res = Responded r"
        "json_result r = Inr rawData" "is_KitzeRegistryResponse rawData"
      using f by blast
    then show ?thesis
    proof cases
      case fallback
      from fetch_body_Inr_process [OF cs(1)] obtain raw where
        "snd (process_raw eng reg raw) = Inr cs"
        by blast
      with fallback cs(2) obtain n where "component.name c = JStr n"
        using fallback_processed_name by blast
      then show ?thesis by simp
    next
      case shadcn
      from cs(1) shadcn(2,3) have "snd (process_raw eng reg (JArr entries)) = Inr cs"
        using fetch_body_Responded_process by blast
      from shadcn_processed_names [OF shadcn(1) shadcn(4) this cs(2)] show ?thesis .
    next
      case kitze
      from cs(1) kitze(2,3) have "snd (process_raw eng reg rawData) = Inr cs"
        using fetch_body_Responded_process by blast
      from kitze_processed_names [OF kitze(1) kitze(4) this cs(2)] show ?thesis .
    qed
  qed
  then obtain n where "component.name c = JStr n"
    by (auto simp: is_string_iff)
  with v show "\<exists>n. component.name c = JStr n \<and> n \<noteq> [] \<and> n \<noteq> ''Unknown Component''"
    by auto
next
  assume h: "jsprop e ''name'' = JUndefined
         \<and> (shadcn_entry e = Some c' \<or> kitze_entry e = Some c'
            \<or> fallback_entry (number_to_string eng) e = Some c')
        \<or> component.name c' = JStr ''Unknown Component''"
  have "component.name c' = JUndefined \<or> component.name c' = JStr ''Unknown Component''"
    using h vendor_entry_name [of e c'] fallback_entry_nameless [of "number_to_string eng" e c']
    by auto
  then have "\<not> is_valid eng c'"
    by (auto simp: is_valid_def)
  then show "c' \<notin> set (components (run (fetchComponents eng reg res) s))"
    using displayed_is_valid by blast
qed

text \<open>
  C2 as stated fails: the vendor branches copy \<open>name\<close> unchecked and the filter tests
  truthiness, so for the \<open>Shadcn UI\<close> registry an entry named by the empty array, and one
  named by the array holding \<open>Unknown Component\<close>, are displayed; their string forms are
  the empty string and \<open>Unknown Component\<close>.
\<close>

theorem displayed_array_name_counterexample:
  "registry.name shadcn_registry = ''Shadcn UI''
   \<and> map component.name
        (components (run (fetchComponents nat_engine shadcn_registry
                            (Responded (ok_response (JArr array_named_entries)))) loaded_state))
     = [JArr [], JArr [JStr ''Unknown Component'']]
   \<and> ToString show_nat (JArr []) = Some ''''
   \<and> ToString show_nat (JArr [JStr ''Unknown Component'']) = Some ''Unknown Component''"
proof -
  have 1: "registry.name shadcn_registry = ''Shadcn UI''"
    by (simp add: shadcn_registry_def availableRegistries_def)
  have 2: "snd (fetch_body nat_engine shadcn_registry
                  (Responded (ok_response (JArr array_named_entries))))
           = Inr [\<lparr>component.name = JArr [], description = JUndefined,
                   dependencies = JUndefined, registryDependencies = JUndefined,
                   files = JArr [JStr ''ui/a.tsx''], type = JStr ''components:ui''\<rparr>,
                  \<lparr>component.name = JArr [JStr ''Unknown Component''], description = JUndefined,
                   dependencies = JUndefined, registryDependencies = JUndefined,
                   files = JArr [JStr ''ui/b.tsx''], type = JStr ''components:ui''\<rparr>]"
    by code_simp
  have 3: "map component.name
        (components (run (fetchComponents nat_engine shadcn_registry
                            (Responded (ok_response (JArr array_named_entries)))) loaded_state))
     = [JArr [], JArr [JStr ''Unknown Component'']]"
    by (simp add: components_after_fetch 2 is_valid_def)
  have 4: "ToString show_nat (JArr []) = Some ''''"
    "ToString show_nat (JArr [JStr ''Unknown Component'']) = Some ''Unknown Component''"
    by simp_all
  from 1 3 4 show ?thesis
    by (intro conjI)
qed

theorem displayed_names_valid_witness:
  "list_all is_ShadcnIndexComponentRaw [sentinel_entry, button_entry]
   \<and> components (run (fetchComponents nat_engine shadcn_registry
                        (Responded (ok_response (JArr [sentinel_entry, button_entry]))))
                   loaded_state)
     = [button_component]
   \<and> (\<exists>n. component.name button_component = JStr n \<and> n \<noteq> [] \<and> n \<noteq> ''Unknown Component'')
   \<and> shadcn_entry sentinel_entry = Some sentinel_component
   \<and> sentinel_component
     \<notin> set (components (run (fetchComponents nat_engine shadcn_registry
               (Responded (ok_response (JArr [sentinel_entry, button_entry]))))
             loaded_state))"
proof -
  let ?r = "ok_response (JArr [sentinel_entry, button_entry])"
  have 0: "snd (fetch_body nat_engine shadcn_registry (Responded ?r))
           = Inr [sentinel_component, button_component]"
    by code_simp
  have v: "is_valid nat_engine button_component" "\<not> is_valid nat_engine sentinel_component"
    by (simp_all add: is_valid_def button_component_def sentinel_component_def)
  have 1: "components (run (fetchComponents nat_engine shadcn_registry (Responded ?r))
                         loaded_state)
           = [button_component]"
    using v by (simp add: components_after_fetch 0)
  have 2: "registry.name shadcn_registry = ''Shadcn UI''"
    by (simp add: shadcn_registry_def availableRegistries_def)
  have 3: "json_result ?r = Inr (JArr [sentinel_entry, button_entry])"
    by (simp add: ok_response_def)
  have 4: "list_all is_ShadcnIndexComponentRaw [sentinel_entry, button_entry]"
    by (simp add: sentinel_entry_def button_entry_def is_ShadcnIndexComponentRaw_def optional_def)
  have 5: "shadcn_entry sentinel_entry = Some sentinel_component"
    by code_simp
  have 6: "component.name sentinel_component = JStr ''Unknown Component''"
    by (simp add: sentinel_component_def)
  have 7: "button_component
             \<in> set (components (run (fetchComponents nat_engine shadcn_registry (Responded ?r))
                                  loaded_state))"
    unfolding 1 by simp
  from displayed_names_valid
         [where c = button_component and eng = nat_engine and reg = shadcn_registry
            and res = "Responded ?r" and r = ?r and s = loaded_state
            and entries = "[sentinel_entry, button_entry]" and c' = sentinel_component]
       7 2 3 4 6
  have "(\<exists>n. component.name button_component = JStr n \<and> n \<noteq> [] \<and> n \<noteq> ''Unknown Component'')
        \<and> sentinel_component
          \<notin> set (components (run (fetchComponents nat_engine shadcn_registry (Responded ?r))
                               loaded_state))"
    by blast
  with 4 1 5 show ?thesis
    by (intro conjI) simp_all
qed

lemma kitze_files_paths:
  assumes "list_all is_KitzeFile fs"
  shows "js_map (\<lambda>file. get_prop file ''path'') (JArr fs)
         = Some (map (\<lambda>file. jsprop file ''path'') fs)"
proof -
  have "get_prop fl ''path'' = Some (jsprop fl ''path'')" if "fl \<in> set fs" for fl
  proof -
    from assms that have "is_object fl"
      by (auto simp: list_all_iff is_KitzeFile_def)
    then show ?thesis
      using is_object_not_nullish by (auto simp: get_prop_def)
  qed
  then show ?thesis
    by (simp add: those_map_Some)
qed

lemma kitze_entry_wf:
  assumes "is_KitzeComponentRaw item"
  shows "kitze_entry item =
     Some \<lparr>component.name = jsprop item ''name'', description = jsprop item ''description'',
           dependencies = jsprop item ''dependencies'',
           registryDependencies = jsprop item ''registryDependencies'',
           files = JArr (map (\<lambda>file. jsprop file ''path'') (elements (jsprop item ''files''))),
           type = jsprop item ''type''\<rparr>"
proof -
  from assms have o: "item \<noteq> JNull \<and> item \<noteq> JUndefined"
    using is_object_not_nullish by (auto simp: is_KitzeComponentRaw_def)
  from assms have "is_array_of is_KitzeFile (jsprop item ''files'')"
    by (simp add: is_KitzeComponentRaw_def)
  from is_array_of_elements [OF this]
  have f: "jsprop item ''files'' = JArr (elements (jsprop item ''files''))"
    and l: "list_all is_KitzeFile (elements (jsprop item ''files''))"
    by simp_all
  have "js_map (\<lambda>file. get_prop file ''path'') (jsprop item ''files'')
        = Some (map (\<lambda>file. jsprop file ''path'') (elements (jsprop item ''files'')))"
    using kitze_files_paths [OF l] f by simp
  then show ?thesis
    using o by (simp add: kitze_entry_def get_prop_def)
qed

subsection \<open>The nested registry\<close>

text \<open>
  C3. For the registry named \<open>Kitze UI\<close> and a response of the shape
  \<open>KitzeRegistryResponse\<close>, normalisation succeeds, and the \<open>files\<close> of the component made
  from each item is the array of the \<open>path\<close> values of the item's file objects, in their
  order; these are strings. The displayed list is the valid part of these components.
\<close>

theorem kitze_files_are_paths:
  assumes reg: "registry.name reg = ''Kitze UI''"
    and r: "ok r" "json_result r = Inr rawData"
    and wf: "is_KitzeRegistryResponse rawData"
  shows "\<exists>cs. snd (fetch_body eng reg (Responded r)) = Inr cs
           \<and> map files cs
             = map (\<lambda>item. JArr (map (\<lambda>file. jsprop file ''path'') (elements (jsprop item ''files''))))
                 (elements (jsprop rawData ''items''))
           \<and> list_all (\<lambda>c. is_array_of is_string (files c)) cs
           \<and> components (run (fetchComponents eng reg (Responded r)) s) = filter (is_valid eng) cs"
proof -
  let ?f = "\<lambda>item. \<lparr>component.name = jsprop item ''name'', description = jsprop item ''description'',
           dependencies = jsprop item ''dependencies'',
           registryDependencies = jsprop item ''registryDependencies'',
           files = JArr (map (\<lambda>file. jsprop file ''path'') (elements (jsprop item ''files''))),
           type = jsprop item ''type''\<rparr>"
  let ?items = "elements (jsprop rawData ''items'')"
  from wf have o: "rawData \<noteq> JNull \<and> rawData \<noteq> JUndefined"
    using is_object_not_nullish by (auto simp: is_KitzeRegistryResponse_def)
  from wf have "is_array_of is_KitzeComponentRaw (jsprop rawData ''items'')"
    by (simp add: is_KitzeRegistryResponse_def)
  from is_array_of_elements [OF this]
  have i: "jsprop rawData ''items'' = JArr ?items"
    and l: "list_all is_KitzeComponentRaw ?items"
    by simp_all
  have "those (map kitze_entry ?items) = Some (map ?f ?items)"
    using l by (intro those_map_Some kitze_entry_wf) (simp add: list_all_iff)
  then have "js_map kitze_entry (jsprop rawData ''items'') = Some (map ?f ?items)"
    using i by (metis js_map.simps(1))
  then have "process_raw eng reg rawData = ([], Inr (map ?f ?items))"
    using reg o by (simp add: process_raw_def get_prop_def)
  then have fb: "fetch_body eng reg (Responded r) = ([], Inr (map ?f ?items))"
    using r by (simp add: fetch_body_ok)
  have m: "map files (map ?f ?items)
           = map (\<lambda>item. JArr (map (\<lambda>file. jsprop file ''path'') (elements (jsprop item ''files''))))
               ?items"
    by simp
  have s: "list_all (\<lambda>c. is_array_of is_string (files c)) (map ?f ?items)"
  proof -
    have "is_string (jsprop fl ''path'')"
      if "item \<in> set ?items" "fl \<in> set (elements (jsprop item ''files''))" for item fl
    proof -
      from l that(1) have "is_array_of is_KitzeFile (jsprop item ''files'')"
        by (auto simp: list_all_iff is_KitzeComponentRaw_def)
      from is_array_of_elements [OF this] that(2) show ?thesis
        by (auto simp: list_all_iff is_KitzeFile_def)
    qed
    then show ?thesis
      by (simp add: list_all_iff)
  qed
  have c: "components (run (fetchComponents eng reg (Responded r)) s)
           = filter (is_valid eng) (map ?f ?items)"
    by (simp add: run_fetch_loaded [OF fb])
  from fb m s c show ?thesis
    by (intro exI [of _ "map ?f ?items"]) simp
qed

theorem kitze_files_are_paths_witness:
  "is_KitzeRegistryResponse kitze_sample
   \<and> (\<exists>cs. snd (fetch_body nat_engine kitze_registry (Responded (ok_response kitze_sample)))
               = Inr cs
             \<and> map files cs
               = [JArr [JStr ''registry/simple-select.tsx'', JStr ''registry/use-select.ts'']]
             \<and> list_all (\<lambda>c. is_array_of is_string (files c)) cs
             \<and> components (run (fetchComponents nat_engine kitze_registry
                                  (Responded (ok_response kitze_sample))) loaded_state)
               = filter (is_valid nat_engine) cs)"
proof -
  have 1: "registry.name kitze_registry = ''Kitze UI''"
    by (simp add: kitze_registry_def availableRegistries_def)
  have 2: "ok (ok_response kitze_sample)" "json_result (ok_response kitze_sample) = Inr kitze_sample"
    by (simp_all add: ok_response_def)
  have 3: "is_KitzeRegistryResponse kitze_sample"
    by (simp add: kitze_sample_def is_KitzeRegistryResponse_def is_KitzeComponentRaw_def
        is_KitzeFile_def optional_def)
  have 4: "map (\<lambda>item. JArr (map (\<lambda>file. jsprop file ''path'') (elements (jsprop item ''files''))))
             (elements (jsprop kitze_sample ''items''))
           = [JArr [JStr ''registry/simple-select.tsx'', JStr ''registry/use-select.ts'']]"
    by (simp add: kitze_sample_def)
  from kitze_files_are_paths [OF 1 2 3, of nat_engine loaded_state]
  have "\<exists>cs. snd (fetch_body nat_engine kitze_registry (Responded (ok_response kitze_sample)))
               = Inr cs
             \<and> map files cs
               = [JArr [JStr ''registry/simple-select.tsx'', JStr ''registry/use-select.ts'']]
             \<and> list_all (\<lambda>c. is_array_of is_string (files c)) cs
             \<and> components (run (fetchComponents nat_engine kitze_registry
                                  (Responded (ok_response kitze_sample))) loaded_state)
               = filter (is_valid nat_engine) cs"
    unfolding 4 .
  with 3 show ?thesis
    by (rule conjI)
qed

subsection \<open>The fallback branch\<close>

lemma ToString_stringifiable:
  "(ToString ns v = None) = (\<not> stringifiable v)"
  "(join_items ns xs = None) = (\<not> list_all stringifiable xs)"
proof (induction ns v and ns xs rule: ToString_join_items.induct)
  case (9 ns x xs)
  then show ?case
    by (cases "x = JUndefined \<or> x = JNull") (auto split: option.splits)
qed simp_all

lemma map_ToString_Some:
  "list_all stringifiable xs \<Longrightarrow> \<exists>ss. map (ToString ns) xs = map Some ss"
proof (induction xs)
  case Nil
  then show ?case by simp
next
  case (Cons x xs)
  then obtain ss where ss: "map (ToString ns) xs = map Some ss"
    by auto
  from Cons.prems have "\<not> ToString ns x = None"
    unfolding ToString_stringifiable by simp
  then obtain s where "ToString ns x = Some s"
    by auto
  with ss have "map (ToString ns) (x # xs) = map Some (s # ss)"
    by simp
  then show ?case
    by blast
qed

lemma those_map_Some_id: "those (map Some ss) = Some ss"
  by (induction ss) simp_all

lemma those_Some_iff: "those xs = Some ys \<longleftrightarrow> xs = map Some ys"
proof (induction xs arbitrary: ys)
  case Nil
  then show ?case by auto
next
  case (Cons x xs)
  then show ?case
    by (cases x) (auto split: option.splits)
qed

lemma map_String_array:
  "map (ToString ns) xs = map Some ss \<Longrightarrow> map_String ns (JArr xs) = Some (JArr (map JStr ss))"
  by (simp add: map_String_def those_map_Some_id)

lemma map_String_throws:
  "\<not> list_all stringifiable xs \<Longrightarrow> map_String ns (JArr xs) = None"
proof -
  assume a: "\<not> list_all stringifiable xs"
  have "those (map (ToString ns) xs) = None"
  proof (rule ccontr)
    assume "those (map (ToString ns) xs) \<noteq> None"
    then obtain ss where "those (map (ToString ns) xs) = Some ss"
      by auto
    then have m: "map (ToString ns) xs = map Some ss"
      by (simp add: those_Some_iff)
    have "stringifiable x" if "x \<in> set xs" for x
    proof -
      from that have "ToString ns x \<in> set (map (ToString ns) xs)" by simp
      then have "\<not> ToString ns x = None" unfolding m by auto
      then show ?thesis unfolding ToString_stringifiable by simp
    qed
    then have "list_all stringifiable xs"
      by (simp add: list_all_iff)
    with a show False by simp
  qed
  then show ?thesis
    by (simp add: map_String_def)
qed

lemma jsprop_has_field: "jsprop cmp k \<noteq> JUndefined \<Longrightarrow> has_field cmp k"
proof (cases cmp)
  case (JObj ps)
  assume "jsprop cmp k \<noteq> JUndefined"
  with JObj obtain v where "map_of ps k = Some v"
    by (auto split: option.splits)
  then have "(k, v) \<in> set ps"
    by (rule map_of_SomeD)
  then have "k \<in> fst ` set ps"
    by force
  with JObj show ?thesis
    by (simp add: has_field_def)
qed simp_all

lemma field_is_string:
  "(has_field cmp k \<and> typeof (jsprop cmp k) = ''string'') = is_string (jsprop cmp k)"
  using jsprop_has_field [of cmp k] by (cases "jsprop cmp k") (auto simp: typeof_string)

lemma field_is_array:
  "(has_field cmp k \<and> isArray (jsprop cmp k)) = isArray (jsprop cmp k)"
  using jsprop_has_field [of cmp k] by (cases "jsprop cmp k") auto

lemma isArray_elements: "isArray v \<Longrightarrow> v = JArr (elements v)"
  by (cases v) simp_all

lemma not_isArray_elements: "\<not> isArray v \<Longrightarrow> elements v = []"
  by (cases v) simp_all

text \<open>The coercion of one array-valued field, as the three \<open>bind\<close>s of the callback compute it.\<close>

lemma coerce_array_field:
  assumes "\<forall>xs. jsprop cmp k = JArr xs \<longrightarrow> list_all stringifiable xs"
  shows "\<exists>ss. map (ToString ns) (elements (jsprop cmp k)) = map Some ss
              \<and> (if has_field cmp k \<and> isArray (jsprop cmp k)
                  then map_String ns (jsprop cmp k) else Some dflt)
                = Some (if isArray (jsprop cmp k) then JArr (map JStr ss) else dflt)"
proof (cases "isArray (jsprop cmp k)")
  case True
  then have e: "jsprop cmp k = JArr (elements (jsprop cmp k))"
    by (rule isArray_elements)
  with assms have "list_all stringifiable (elements (jsprop cmp k))"
    by blast
  from map_ToString_Some [OF this, of ns] obtain ss where
    ss: "map (ToString ns) (elements (jsprop cmp k)) = map Some ss"
    by blast
  from map_String_array [OF ss] e have "map_String ns (jsprop cmp k) = Some (JArr (map JStr ss))"
    by simp
  moreover from True have "has_field cmp k"
    by (intro jsprop_has_field) auto
  ultimately show ?thesis
    using True ss by auto
next
  case False
  then show ?thesis
    by (simp add: not_isArray_elements)
qed

lemma fallback_entry_element:
  assumes "\<forall>k \<in> {''files'', ''dependencies'', ''registryDependencies''}.
             \<forall>ys. jsprop cmp k = JArr ys \<longrightarrow> list_all stringifiable ys"
  shows "\<exists>c fs ds rs.
           fallback_entry ns cmp = Some c
           \<and> component.name c
             = (if is_string (jsprop cmp ''name'') then jsprop cmp ''name''
                else JStr ''Unknown Component'')
           \<and> description c
             = (if is_string (jsprop cmp ''description'') then jsprop cmp ''description''
                else JUndefined)
           \<and> map (ToString ns) (elements (jsprop cmp ''files'')) = map Some fs
           \<and> files c = (if isArray (jsprop cmp ''files'') then JArr (map JStr fs) else JArr [])
           \<and> map (ToString ns) (elements (jsprop cmp ''dependencies'')) = map Some ds
           \<and> dependencies c
             = (if isArray (jsprop cmp ''dependencies'') then JArr (map JStr ds) else JUndefined)
           \<and> map (ToString ns) (elements (jsprop cmp ''registryDependencies'')) = map Some rs
           \<and> registryDependencies c
             = (if isArray (jsprop cmp ''registryDependencies'') then JArr (map JStr rs)
                else JUndefined)
           \<and> type c
             = (if is_string (jsprop cmp ''type'') then jsprop cmp ''type'' else JStr ''unknown'')"
proof -
  from assms have a:
    "\<forall>ys. jsprop cmp ''files'' = JArr ys \<longrightarrow> list_all stringifiable ys"
    "\<forall>ys. jsprop cmp ''dependencies'' = JArr ys \<longrightarrow> list_all stringifiable ys"
    "\<forall>ys. jsprop cmp ''registryDependencies'' = JArr ys \<longrightarrow> list_all stringifiable ys"
    by simp_all
  from coerce_array_field [OF a(1), of ns "JArr []"] obtain fs where
    fs: "map (ToString ns) (elements (jsprop cmp ''files'')) = map Some fs"
        "(if has_field cmp ''files'' \<and> isArray (jsprop cmp ''files'')
          then map_String ns (jsprop cmp ''files'') else Some (JArr []))
         = Some (if isArray (jsprop cmp ''files'') then JArr (map JStr fs) else JArr [])"
    by blast
  from coerce_array_field [OF a(2), of ns JUndefined] obtain ds where
    ds: "map (ToString ns) (elements (jsprop cmp ''dependencies'')) = map Some ds"
        "(if has_field cmp ''dependencies'' \<and> isArray (jsprop cmp ''dependencies'')
          then map_String ns (jsprop cmp ''dependencies'') else Some JUndefined)
         = Some (if isArray (jsprop cmp ''dependencies'') then JArr (map JStr ds)
                 else JUndefined)"
    by blast
  from coerce_array_field [OF a(3), of ns JUndefined] obtain rs where
    rs: "map (ToString ns) (elements (jsprop cmp ''registryDependencies'')) = map Some rs"
        "(if has_field cmp ''registryDependencies'' \<and> isArray (jsprop cmp ''registryDependencies'')
          then map_String ns (jsprop cmp ''registryDependencies'') else Some JUndefined)
         = Some (if isArray (jsprop cmp ''registryDependencies'') then JArr (map JStr rs)
                 else JUndefined)"
    by blast
  let ?c = "\<lparr>component.name = (if is_string (jsprop cmp ''name'') then jsprop cmp ''name''
                                 else JStr ''Unknown Component''),
             description = (if is_string (jsprop cmp ''description'')
                            then jsprop cmp ''description'' else JUndefined),
             dependencies = (if isArray (jsprop cmp ''dependencies'') then JArr (map JStr ds)
                             else JUndefined),
             registryDependencies = (if isArray (jsprop cmp ''registryDependencies'')
                                     then JArr (map JStr rs) else JUndefined),
             files = (if isArray (jsprop cmp ''files'') then JArr (map JStr fs) else JArr []),
             type = (if is_string (jsprop cmp ''type'') then jsprop cmp ''type''
                     else JStr ''unknown'')\<rparr>"
  have "fallback_entry ns cmp = Some ?c"
    unfolding fallback_entry_def Let_def fs(2) ds(2) rs(2) field_is_string
    by simp
  with fs(1) ds(1) rs(1) show ?thesis
    by (intro exI [of _ ?c] exI [of _ fs] exI [of _ ds] exI [of _ rs]) simp
qed

lemma those_map_rel:
  "(\<And>x. x \<in> set xs \<Longrightarrow> \<exists>c. f x = Some c \<and> P x c) \<Longrightarrow>
   \<exists>cs. those (map f xs) = Some cs \<and> list_all2 P xs cs"
proof (induction xs)
  case Nil
  then show ?case by simp
next
  case (Cons x xs)
  then obtain cs where cs: "those (map f xs) = Some cs" "list_all2 P xs cs"
    by auto
  from Cons.prems obtain c where c: "f x = Some c" "P x c"
    by auto
  from cs c have "those (map f (x # xs)) = Some (c # cs) \<and> list_all2 P (x # xs) (c # cs)"
    by simp
  then show ?case
    by blast
qed

text \<open>
  C8 (as amended). For a registry of any other name and a response that is an array, if in
  no element the arrays under \<open>files\<close>, \<open>dependencies\<close> and \<open>registryDependencies\<close> hold an
  object with an own \<open>toString\<close> property (at any depth of nested arrays), the fallback
  branch does not throw and makes one component per element, objects or not: the name is
  the element's \<open>name\<close> when that is a string and \<open>Unknown Component\<close> otherwise, the
  description its \<open>description\<close> when a string and undefined otherwise, \<open>files\<close> the
  \<open>String\<close> forms of the elements of its \<open>files\<close> when an array and \<open>[]\<close> otherwise,
  \<open>dependencies\<close> and \<open>registryDependencies\<close> likewise but undefined when no array, and the
  type its \<open>type\<close> when a string and \<open>unknown\<close> otherwise.
\<close>

theorem fallback_coercion_total:
  assumes reg: "registry.name reg \<noteq> ''Shadcn UI''" "registry.name reg \<noteq> ''Kitze UI''"
    and str: "\<forall>x \<in> set xs. \<forall>k \<in> {''files'', ''dependencies'', ''registryDependencies''}.
                \<forall>ys. jsprop x k = JArr ys \<longrightarrow> list_all stringifiable ys"
  shows "\<exists>cs. snd (process_raw eng reg (JArr xs)) = Inr cs
           \<and> length cs = length xs
           \<and> (\<forall>i < length xs. \<exists>fs ds rs.
                 fallback_entry (number_to_string eng) (xs ! i) = Some (cs ! i)
                 \<and> component.name (cs ! i)
                   = (if is_string (jsprop (xs ! i) ''name'') then jsprop (xs ! i) ''name''
                      else JStr ''Unknown Component'')
                 \<and> description (cs ! i)
                   = (if is_string (jsprop (xs ! i) ''description'')
                      then jsprop (xs ! i) ''description'' else JUndefined)
                 \<and> map (ToString (number_to_string eng)) (elements (jsprop (xs ! i) ''files''))
                   = map Some fs
                 \<and> files (cs ! i)
                   = (if isArray (jsprop (xs ! i) ''files'') then JArr (map JStr fs) else JArr [])
                 \<and> map (ToString (number_to_string eng))
                       (elements (jsprop (xs ! i) ''dependencies''))
                   = map Some ds
                 \<and> dependencies (cs ! i)
                   = (if isArray (jsprop (xs ! i) ''dependencies'') then JArr (map JStr ds)
                      else JUndefined)
                 \<and> map (ToString (number_to_string eng))
                       (elements (jsprop (xs ! i) ''registryDependencies''))
                   = map Some rs
                 \<and> registryDependencies (cs ! i)
                   = (if isArray (jsprop (xs ! i) ''registryDependencies'')
                      then JArr (map JStr rs) else JUndefined)
                 \<and> type (cs ! i)
                   = (if is_string (jsprop (xs ! i) ''type'') then jsprop (xs ! i) ''type''
                      else JStr ''unknown''))"
proof -
  let ?ns = "number_to_string eng"
  define P where "P = (\<lambda>cmp (c :: 'a component). \<exists>fs ds rs.
           fallback_entry ?ns cmp = Some c
           \<and> component.name c
             = (if is_string (jsprop cmp ''name'') then jsprop cmp ''name''
                else JStr ''Unknown Component'')
           \<and> description c
             = (if is_string (jsprop cmp ''description'') then jsprop cmp ''description''
                else JUndefined)
           \<and> map (ToString ?ns) (elements (jsprop cmp ''files'')) = map Some fs
           \<and> files c = (if isArray (jsprop cmp ''files'') then JArr (map JStr fs) else JArr [])
           \<and> map (ToString ?ns) (elements (jsprop cmp ''dependencies'')) = map Some ds
           \<and> dependencies c
             = (if isArray (jsprop cmp ''dependencies'') then JArr (map JStr ds) else JUndefined)
           \<and> map (ToString ?ns) (elements (jsprop cmp ''registryDependencies'')) = map Some rs
           \<and> registryDependencies c
             = (if isArray (jsprop cmp ''registryDependencies'') then JArr (map JStr rs)
                else JUndefined)
           \<and> type c
             = (if is_string (jsprop cmp ''type'') then jsprop cmp ''type'' else JStr ''unknown''))"
  have el: "\<exists>c. fallback_entry ?ns x = Some c \<and> P x c" if "x \<in> set xs" for x
  proof -
    from str that have "\<forall>k \<in> {''files'', ''dependencies'', ''registryDependencies''}.
             \<forall>ys. jsprop x k = JArr ys \<longrightarrow> list_all stringifiable ys"
      by blast
    from fallback_entry_element [OF this, of ?ns] show ?thesis
      unfolding P_def by blast
  qed
  from those_map_rel [of xs "fallback_entry ?ns" P, OF el] obtain cs where
    cs: "those (map (fallback_entry ?ns) xs) = Some cs" "list_all2 P xs cs"
    by blast
  from cs(1) reg have pr: "snd (process_raw eng reg (JArr xs)) = Inr cs"
    by (simp add: process_raw_def)
  from cs(2) have len: "length cs = length xs"
    by (simp add: list_all2_lengthD)
  from cs(2) have nth: "P (xs ! i) (cs ! i)" if "i < length xs" for i
    using that by (simp add: list_all2_nthD)
  have "\<forall>i < length xs. P (xs ! i) (cs ! i)"
    using nth by simp
  with pr len show ?thesis
    unfolding P_def by (intro exI [of _ cs] conjI) assumption+
qed

text \<open>
  C8 as stated fails: \<open>String\<close> raises on an object whose own \<open>toString\<close> property shadows
  the inherited method, so the callback throws on an element with such an object among its
  files; the \<open>catch\<close> of the branch turns that into its own error.
\<close>

theorem fallback_entry_throws_counterexample:
  "registry.name other_registry \<noteq> ''Shadcn UI''
   \<and> registry.name other_registry \<noteq> ''Kitze UI''
   \<and> fallback_entry (number_to_string nat_engine) shadowing_entry = None
   \<and> snd (process_raw nat_engine other_registry (JArr [shadowing_entry]))
     = Inl (ErrorObj ''Failed to process data structure for registry: Acme UI'')"
  by code_simp

theorem fallback_coercion_total_witness:
  "\<exists>cs. snd (process_raw nat_engine other_registry (JArr [button_entry, nameless_entry, JNum 5]))
          = Inr cs
        \<and> length cs = 3
        \<and> component.name (cs ! 0) = JStr ''button''
        \<and> component.name (cs ! 2) = JStr ''Unknown Component''
        \<and> files (cs ! 2) = JArr []
        \<and> type (cs ! 2) = JStr ''unknown''"
proof -
  let ?xs = "[button_entry, nameless_entry, JNum 5]"
  have 1: "registry.name other_registry \<noteq> ''Shadcn UI''"
    "registry.name other_registry \<noteq> ''Kitze UI''"
    by (simp_all add: other_registry_def)
  have 2: "\<forall>x \<in> set ?xs. \<forall>k \<in> {''files'', ''dependencies'', ''registryDependencies''}.
                \<forall>ys. jsprop x k = JArr ys \<longrightarrow> list_all stringifiable ys"
    by (auto simp: button_entry_def nameless_entry_def)
  from fallback_coercion_total [OF 1 2, of nat_engine] obtain cs where
    cs: "snd (process_raw nat_engine other_registry (JArr ?xs)) = Inr cs"
    "length cs = length ?xs"
    and all: "\<forall>i < length ?xs. \<exists>fs ds rs.
                 fallback_entry (number_to_string nat_engine) (?xs ! i) = Some (cs ! i)
                 \<and> component.name (cs ! i)
                   = (if is_string (jsprop (?xs ! i) ''name'') then jsprop (?xs ! i) ''name''
                      else JStr ''Unknown Component'')
                 \<and> description (cs ! i)
                   = (if is_string (jsprop (?xs ! i) ''description'')
                      then jsprop (?xs ! i) ''description'' else JUndefined)
                 \<and> map (ToString (number_to_string nat_engine)) (elements (jsprop (?xs ! i) ''files''))
                   = map Some fs
                 \<and> files (cs ! i)
                   = (if isArray (jsprop (?xs ! i) ''files'') then JArr (map JStr fs) else JArr [])
                 \<and> map (ToString (number_to_string nat_engine))
                       (elements (jsprop (?xs ! i) ''dependencies''))
                   = map Some ds
                 \<and> dependencies (cs ! i)
                   = (if isArray (jsprop (?xs ! i) ''dependencies'') then JArr (map JStr ds)
                      else JUndefined)
                 \<and> map (ToString (number_to_string nat_engine))
                       (elements (jsprop (?xs ! i) ''registryDependencies''))
                   = map Some rs
                 \<and> registryDependencies (cs ! i)
                   = (if isArray (jsprop (?xs ! i) ''registryDependencies'')
                      then JArr (map JStr rs) else JUndefined)
                 \<and> type (cs ! i)
                   = (if is_string (jsprop (?xs ! i) ''type'') then jsprop (?xs ! i) ''type''
                      else JStr ''unknown'')"
    by (elim exE conjE)
  have nth: "component.name (cs ! i)
         = (if is_string (jsprop (?xs ! i) ''name'') then jsprop (?xs ! i) ''name''
            else JStr ''Unknown Component'')
       \<and> (\<not> isArray (jsprop (?xs ! i) ''files'') \<longrightarrow> files (cs ! i) = JArr [])
       \<and> type (cs ! i)
         = (if is_string (jsprop (?xs ! i) ''type'') then jsprop (?xs ! i) ''type''
            else JStr ''unknown'')" if "i < length ?xs" for i
  proof -
    from all that obtain fs where
      "component.name (cs ! i)
         = (if is_string (jsprop (?xs ! i) ''name'') then jsprop (?xs ! i) ''name''
            else JStr ''Unknown Component'')"
      "files (cs ! i)
         = (if isArray (jsprop (?xs ! i) ''files'') then JArr (map JStr fs) else JArr [])"
      "type (cs ! i)
         = (if is_string (jsprop (?xs ! i) ''type'') then jsprop (?xs ! i) ''type''
            else JStr ''unknown'')"
      by blast
    then show ?thesis
      by simp
  qed
  from nth [of 0] nth [of 2] have
    "component.name (cs ! 0) = JStr ''button''"
    "component.name (cs ! 2) = JStr ''Unknown Component''"
    "files (cs ! 2) = JArr []"
    "type (cs ! 2) = JStr ''unknown''"
    by (simp_all add: button_entry_def)
  with cs show ?thesis
    by auto
qed

end
